theory Spec2Isabelle
  imports Complex_Main
begin

section \<open>Runner core (class RunnerScene)\<close>

text \<open>
  The runner is the Phaser scene \<^verbatim>\<open>RunnerScene\<close>. Its numbers are JavaScript numbers;
  they are modelled as mathematical reals, except where the source reads a property that
  was never assigned: such a read yields \<^verbatim>\<open>undefined\<close>, and arithmetic on it yields
  \<^verbatim>\<open>NaN\<close>. Both are values of the type \<open>jsnum\<close>.
\<close>

datatype jsnum = Undefined | NaN | Num real

text \<open>JavaScript truthiness of a number-or-undefined value (\<^verbatim>\<open>if (particle.life)\<close>).\<close>

fun truthy :: "jsnum \<Rightarrow> bool" where
  "truthy Undefined = False"
| "truthy NaN = False"
| "truthy (Num r) = (r \<noteq> 0)"

text \<open>\<^verbatim>\<open>v - d\<close> for a number \<open>d\<close>: \<^verbatim>\<open>undefined - d\<close> and \<^verbatim>\<open>NaN - d\<close> are \<^verbatim>\<open>NaN\<close>.\<close>

fun js_minus :: "jsnum \<Rightarrow> real \<Rightarrow> jsnum" where
  "js_minus (Num r) d = Num (r - d)"
| "js_minus NaN d = NaN"
| "js_minus Undefined d = NaN"

text \<open>\<^verbatim>\<open>v <= 0\<close>: every comparison with \<^verbatim>\<open>NaN\<close> is false.\<close>

fun js_le_zero :: "jsnum \<Rightarrow> bool" where
  "js_le_zero (Num r) = (r \<le> 0)"
| "js_le_zero NaN = False"
| "js_le_zero Undefined = False"

text \<open>\<^verbatim>\<open>Math.max(0, v * k)\<close>: \<^verbatim>\<open>NaN\<close> when the argument is \<^verbatim>\<open>NaN\<close>.\<close>

fun js_max0_scaled :: "jsnum \<Rightarrow> real \<Rightarrow> jsnum" where
  "js_max0_scaled (Num r) k = Num (max 0 (r * k))"
| "js_max0_scaled NaN k = NaN"
| "js_max0_scaled Undefined k = NaN"

datatype obstacle_type = Barrel | Box

record obstacle =
  obstacle_x :: real
  obstacle_y :: real
  obstacle_type :: obstacle_type

text \<open>
  A dragon sprite: its position and the entries \<^verbatim>\<open>health\<close> and \<^verbatim>\<open>fireTimer\<close> of its
  data store (\<^verbatim>\<open>setData\<close>/\<^verbatim>\<open>getData\<close>).
\<close>

record dragon =
  dragon_x :: real
  dragon_y :: real
  data_health :: real
  data_fireTimer :: real

text \<open>
  A dust or fire sprite. \<^verbatim>\<open>setData("life", v)\<close> writes the entry \<open>data_life\<close> of the
  sprite's data store; \<^verbatim>\<open>particle.life\<close> reads the property \<open>life\<close> of the sprite object
  itself, which no statement of the program assigns before \<^verbatim>\<open>update\<close> does.
\<close>

record particle =
  particle_x :: real
  particle_y :: real
  velocity_x :: real
  velocity_y :: real
  data_life :: real
  life :: jsnum
  alpha :: jsnum

text \<open>A Phaser timer event (\<^verbatim>\<open>this.time.addEvent\<close>); \<^verbatim>\<open>remove\<close> clears \<open>timer_alive\<close>.\<close>

record timer_event =
  timer_delay :: nat
  timer_loop :: bool
  timer_alive :: bool

record runner =
  score :: real
  level :: int
  spawnTimer :: "timer_event option"
  dragonSpawnTimer :: "timer_event option"
  dragonFireTimer :: "timer_event option"
  baseSpawnDelay :: nat
  gameActive :: bool
  dragonHealth :: real
  player_x :: real
  player_y :: real
  player_velocity_y :: real
  obstacles :: "obstacle list"
  dragons :: "dragon list"
  fireParticles :: "particle list"
  particles :: "particle list"
  physics_paused :: bool
  restart_handlers :: nat
  highscore_shown :: jsnum
  localStorage :: "string \<rightharpoonup> string"

text \<open>The canvas of the game configuration: \<^verbatim>\<open>width: 900, height: 500\<close>.\<close>

definition width :: real where "width = 900"
definition height :: real where "height = 500"

subsection \<open>Spawning\<close>

text \<open>
  \<^verbatim>\<open>group.add(sprite)\<close> of a physics group applies the group's defaults to the body of
  the sprite; the default velocity is \<open>(0, 0)\<close>, so the velocity a sprite was given before
  it was added is lost.
\<close>

definition group_add :: "particle \<Rightarrow> particle" where
  "group_add p = p\<lparr> velocity_x := 0, velocity_y := 0 \<rparr>"

text \<open>
  \<^verbatim>\<open>createDustParticles(x, y)\<close>: six sprites on a circle of directions, each with the data
  entry \<^verbatim>\<open>life = 0.6\<close>, each then added to the group \<^verbatim>\<open>particles\<close>. A new sprite has alpha
  1 and no property \<^verbatim>\<open>life\<close>.
\<close>

definition dust :: "real \<Rightarrow> real \<Rightarrow> nat \<Rightarrow> particle" where
  "dust x y i =
     (let angle = (pi * 2 * real i) / 6;
          sprite = \<lparr> particle_x = x, particle_y = y,
                     velocity_x = cos angle * 150, velocity_y = sin angle * 150 - 100,
                     data_life = 0.6, life = Undefined, alpha = Num 1 \<rparr> in
      group_add sprite)"

definition createDustParticles :: "real \<Rightarrow> real \<Rightarrow> runner \<Rightarrow> runner" where
  "createDustParticles x y s = s\<lparr> particles := particles s @ map (dust x y) [0..<6] \<rparr>"

text \<open>
  \<^verbatim>\<open>spawnFire(dragon)\<close>: eight sprites from the dragon's mouth with the data entry
  \<^verbatim>\<open>life = 0.8\<close>, each then added to the group \<^verbatim>\<open>fireParticles\<close>. \<open>rnd k\<close> is the result of
  the \<open>k\<close>-th call of \<^verbatim>\<open>Math.random()\<close>.
\<close>

definition fire :: "(nat \<Rightarrow> real) \<Rightarrow> dragon \<Rightarrow> nat \<Rightarrow> particle" where
  "fire rnd d i =
     (let angle = - pi / 2 + (rnd (2 * i) - 0.5) * 0.8;
          speed = 280 + rnd (2 * i + 1) * 220;
          sprite = \<lparr> particle_x = dragon_x d - 40, particle_y = dragon_y d + 30,
                     velocity_x = cos angle * speed - 150, velocity_y = sin angle * speed,
                     data_life = 0.8, life = Undefined, alpha = Num 1 \<rparr> in
      group_add sprite)"

definition spawnFire :: "(nat \<Rightarrow> real) \<Rightarrow> dragon \<Rightarrow> runner \<Rightarrow> runner" where
  "spawnFire rnd d s = s\<lparr> fireParticles := fireParticles s @ map (fire rnd d) [0..<8] \<rparr>"

text \<open>
  \<^verbatim>\<open>spawnDragon()\<close>: one dragon right of the screen with \<^verbatim>\<open>health = 3\<close>. The fire breath it
  schedules (\<^verbatim>\<open>setInterval\<close>, every 300 ms) is the operation \<open>spawnFire\<close> above.
\<close>

definition spawnDragon :: "runner \<Rightarrow> runner" where
  "spawnDragon s =
     s\<lparr> dragons := dragons s @
          [\<lparr> dragon_x = width + 150, dragon_y = height - 40 - 80,
             data_health = 3, data_fireTimer = 0 \<rparr>] \<rparr>"

definition spawnBarrel :: "runner \<Rightarrow> runner" where
  "spawnBarrel s =
     s\<lparr> obstacles := obstacles s @
          [\<lparr> obstacle_x = width + 80, obstacle_y = height - 40 - 22, obstacle_type = Barrel \<rparr>] \<rparr>"

definition spawnBox :: "runner \<Rightarrow> runner" where
  "spawnBox s =
     s\<lparr> obstacles := obstacles s @
          [\<lparr> obstacle_x = width + 80, obstacle_y = height - 40 - 24, obstacle_type = Box \<rparr>] \<rparr>"

text \<open>
  \<^verbatim>\<open>spawnObstacle()\<close>; \<open>pick\<close> is the index \<^verbatim>\<open>Phaser.Math.RND.pick\<close> draws from
  \<^verbatim>\<open>[0, 0, 0, 1]\<close>.
\<close>

definition spawnObstacle :: "nat \<Rightarrow> runner \<Rightarrow> runner" where
  "spawnObstacle pick s =
     (if level s \<ge> 2 \<and> length (dragons s) > 0 then s
      else if [0, 0, 0, 1 :: nat] ! (pick mod 4) = 0 then spawnBarrel s
      else spawnBox s)"

subsection \<open>The update loop\<close>

text \<open>
  \<^verbatim>\<open>group.children.iterate(callback)\<close> visits the entries of the group by index, and
  \<^verbatim>\<open>destroy()\<close> takes the sprite out of the group at once: the entries behind it move up
  by one, so the sprite that followed the destroyed one is not visited in this call. The
  callback is modelled by its effect on one sprite, \<open>None\<close> when it destroys the sprite;
  the slots that are empty at the end are passed over by the callbacks' first line
  (\<^verbatim>\<open>if (!child) return true\<close>).
\<close>

fun children_iterate :: "('a \<Rightarrow> 'a option) \<Rightarrow> 'a list \<Rightarrow> 'a list" where
  "children_iterate f [] = []"
| "children_iterate f [x] = (case f x of None \<Rightarrow> [] | Some x' \<Rightarrow> [x'])"
| "children_iterate f (x # y # ys) =
     (case f x of
        None \<Rightarrow> y # children_iterate f ys
      | Some x' \<Rightarrow> x' # children_iterate f (y # ys))"

text \<open>The callbacks of the four loops of \<^verbatim>\<open>update\<close>.\<close>

definition move_obstacle :: "int \<Rightarrow> real \<Rightarrow> obstacle \<Rightarrow> obstacle option" where
  "move_obstacle lvl delta ob =
     (let speed = 300 + (real_of_int lvl - 1) * 30;
          ob' = ob\<lparr> obstacle_x := obstacle_x ob - speed * (delta / 1000) \<rparr> in
      if obstacle_x ob' < - 100 then None else Some ob')"

definition move_dragon :: "int \<Rightarrow> real \<Rightarrow> dragon \<Rightarrow> dragon option" where
  "move_dragon lvl delta d =
     (let speed = 250 + (real_of_int lvl - 1) * 20;
          d' = d\<lparr> dragon_x := dragon_x d - speed * (delta / 1000) \<rparr> in
      if dragon_x d' < - 150 then None else Some d')"

definition update_particle :: "real \<Rightarrow> particle \<Rightarrow> particle option" where
  "update_particle delta p =
     (if truthy (life p) then
        (let p' = p\<lparr> life := js_minus (life p) (delta / 1000) \<rparr> in
         if js_le_zero (life p') then None
         else Some (p'\<lparr> alpha := js_max0_scaled (life p') 1 \<rparr>))
      else Some p)"

definition update_fire_particle :: "real \<Rightarrow> particle \<Rightarrow> particle option" where
  "update_fire_particle delta f =
     (let f' = f\<lparr> life := js_minus (life f) (delta / 1000) \<rparr> in
      if js_le_zero (life f') then None
      else Some (f'\<lparr> alpha := js_max0_scaled (life f') 0.7 \<rparr>))"

definition move_obstacles :: "int \<Rightarrow> real \<Rightarrow> obstacle list \<Rightarrow> obstacle list" where
  "move_obstacles lvl delta obs = children_iterate (move_obstacle lvl delta) obs"

definition move_dragons :: "int \<Rightarrow> real \<Rightarrow> dragon list \<Rightarrow> dragon list" where
  "move_dragons lvl delta ds = children_iterate (move_dragon lvl delta) ds"

definition update_particles :: "real \<Rightarrow> particle list \<Rightarrow> particle list" where
  "update_particles delta ps = children_iterate (update_particle delta) ps"

definition update_fire :: "real \<Rightarrow> particle list \<Rightarrow> particle list" where
  "update_fire delta fs = children_iterate (update_fire_particle delta) fs"

text \<open>\<^verbatim>\<open>update(_time, delta)\<close>, \<open>delta\<close> in milliseconds.\<close>

definition level_up :: "int \<Rightarrow> runner \<Rightarrow> runner" where
  "level_up lvl s =
     (if lvl \<noteq> level s then
        (let s1 = s\<lparr> level := lvl \<rparr> in
         if level s1 = 2 \<and> dragonSpawnTimer s1 = None then
           (spawnDragon s1)\<lparr> dragonSpawnTimer :=
              Some \<lparr> timer_delay = 6000, timer_loop = True, timer_alive = True \<rparr> \<rparr>
         else s1)
      else s)"

definition update :: "real \<Rightarrow> runner \<Rightarrow> runner" where
  "update delta s =
     (if \<not> gameActive s then s
      else
        (let s1 = s\<lparr> score := score s + delta * 0.01 \<rparr>;
             lvl = \<lfloor>score s1 / 250\<rfloor> + 1;
             s2 = level_up lvl s1 in
         s2\<lparr> obstacles := move_obstacles (level s2) delta (obstacles s2),
             dragons := move_dragons (level s2) delta (dragons s2),
             particles := update_particles delta (particles s2),
             fireParticles := update_fire delta (fireParticles s2) \<rparr>))"

subsection \<open>Combat\<close>

text \<open>
  \<^verbatim>\<open>damageDragon(dragon)\<close>, the callback of the player--dragon overlap. The dragon is the
  \<open>i\<close>-th member of the group; the overlap is only reported for a member, so an index
  outside the group changes nothing. \<open>rnd k\<close> is the \<open>k\<close>-th \<^verbatim>\<open>Math.random()\<close>.
  \<^verbatim>\<open>getData("health") || 3\<close> reads 3 for a stored 0.
\<close>

definition damageDragon :: "(nat \<Rightarrow> real) \<Rightarrow> nat \<Rightarrow> runner \<Rightarrow> runner" where
  "damageDragon rnd i s =
     (if player_velocity_y s \<le> 0 then s
      else if i \<ge> length (dragons s) then s
      else
        (let d = dragons s ! i;
             health = (if data_health d = 0 then 3 else data_health d);
             newHealth = health - 1 in
         if newHealth \<le> 0 then
           (let s1 = createDustParticles (dragon_x d) (dragon_y d) s;
                s2 = fold (\<lambda>k. createDustParticles (dragon_x d + (rnd k - 0.5) * 40)
                                                     (dragon_y d - 20)) [0..<3] s1;
                s3 = s2\<lparr> score := score s2 + 50 \<rparr> in
            s3\<lparr> dragons := take i (dragons s3) @ drop (Suc i) (dragons s3) \<rparr>)
         else
           (let s1 = s\<lparr> dragons := (dragons s)[i := d\<lparr> data_health := newHealth \<rparr>] \<rparr>;
                s2 = createDustParticles (dragon_x d) (dragon_y d) s1;
                d2 = dragons s2 ! i in
            s2\<lparr> dragons := (dragons s2)[i := d2\<lparr> dragon_x := dragon_x d2 - 30 \<rparr>] \<rparr>)))"

subsection \<open>The durable store\<close>

text \<open>
  \<^verbatim>\<open>parseInt(string)\<close> with no radix, after ECMAScript: leading white space is dropped, a
  sign is read, a prefix \<^verbatim>\<open>0x\<close> selects radix 16, and the longest prefix of digits is the
  value; with no digit the result is \<^verbatim>\<open>NaN\<close>. A string is a list of characters with the
  codes 0 to 255; of the white space of ECMAScript these are the codes 9 to 13, 32 and
  160 (the others, such as U+FEFF and the line separators, lie above 255). The value is
  the exact integer; the code's is the nearest double, which is the same up to \<open>2\<^sup>5\<^sup>3\<close>.
\<close>

definition is_white :: "char \<Rightarrow> bool" where
  "is_white c = (of_char c \<in> {9, 10, 11, 12, 13, 32, 160 :: nat})"

definition digit_value :: "char \<Rightarrow> nat option" where
  "digit_value c =
     (let n = of_char c :: nat in
      if 48 \<le> n \<and> n \<le> 57 then Some (n - 48)
      else if 97 \<le> n \<and> n \<le> 122 then Some (n - 87)
      else if 65 \<le> n \<and> n \<le> 90 then Some (n - 55)
      else None)"

definition is_digit :: "nat \<Rightarrow> char \<Rightarrow> bool" where
  "is_digit R c = (case digit_value c of None \<Rightarrow> False | Some v \<Rightarrow> v < R)"

definition digits_value :: "nat \<Rightarrow> string \<Rightarrow> nat" where
  "digits_value R Z = foldl (\<lambda>acc c. acc * R + (case digit_value c of None \<Rightarrow> 0 | Some v \<Rightarrow> v)) 0 Z"

definition parseInt :: "string \<Rightarrow> jsnum" where
  "parseInt str =
     (let S = dropWhile is_white str;
          sign = (if take 1 S = ''-'' then - 1 else 1 :: int);
          S1 = (if take 1 S = ''-'' \<or> take 1 S = ''+'' then drop 1 S else S);
          R = (if take 2 S1 = ''0x'' \<or> take 2 S1 = ''0X'' then 16 else 10 :: nat);
          S2 = (if R = 16 then drop 2 S1 else S1);
          Z = takeWhile (is_digit R) S2 in
      if Z = [] then NaN else Num (real_of_int (sign * int (digits_value R Z))))"

text \<open>
  \<^verbatim>\<open>String(n)\<close> for an integer \<open>n\<close> of magnitude below \<open>10\<^sup>2\<^sup>1\<close>, where the code writes all
  digits (from there on it writes exponent notation, which is not modelled).
\<close>

fun decimal :: "nat \<Rightarrow> string" where
  "decimal n =
     (if n < 10 then [''0123456789'' ! n]
      else decimal (n div 10) @ [''0123456789'' ! (n mod 10)])"

declare decimal.simps [simp del]

definition String_of :: "int \<Rightarrow> string" where
  "String_of n = (if n < 0 then ''-'' @ decimal (nat (- n)) else decimal (nat n))"

text \<open>\<^verbatim>\<open>localStorage.getItem(key) || "0"\<close>: \<^verbatim>\<open>null\<close> and the empty string read as "0".\<close>

definition getItem_or_0 :: "(string \<rightharpoonup> string) \<Rightarrow> string \<Rightarrow> string" where
  "getItem_or_0 store key =
     (case store key of None \<Rightarrow> ''0'' | Some v \<Rightarrow> if v = [] then ''0'' else v)"

definition read_highscore :: "(string \<rightharpoonup> string) \<Rightarrow> jsnum" where
  "read_highscore store = parseInt (getItem_or_0 store ''barrelJumpHighscore'')"

text \<open>\<^verbatim>\<open>c > v\<close> for a number \<open>c\<close>: false when \<open>v\<close> is \<^verbatim>\<open>NaN\<close>.\<close>

fun js_greater :: "real \<Rightarrow> jsnum \<Rightarrow> bool" where
  "js_greater c (Num h) = (c > h)"
| "js_greater c NaN = False"
| "js_greater c Undefined = False"

subsection \<open>Game over, scene creation and restart\<close>

definition remove_timer :: "timer_event option \<Rightarrow> timer_event option" where
  "remove_timer t = map_option (\<lambda>e. e\<lparr> timer_alive := False \<rparr>) t"

text \<open>
  \<^verbatim>\<open>gameOver()\<close>. The overlay texts are presentation; \<open>restart_handlers\<close> counts the
  one-shot \<^verbatim>\<open>keydown-R\<close> handlers it registers.
\<close>

definition gameOver :: "runner \<Rightarrow> runner" where
  "gameOver s =
     (let s1 = s\<lparr> gameActive := False, spawnTimer := remove_timer (spawnTimer s),
                  physics_paused := True \<rparr>;
          currentScore = \<lfloor>score s1\<rfloor>;
          highscore = read_highscore (localStorage s1);
          isNewHighscore = js_greater (real_of_int currentScore) highscore;
          s2 = (if isNewHighscore
                then s1\<lparr> localStorage :=
                           (localStorage s1)(''barrelJumpHighscore'' \<mapsto> String_of currentScore) \<rparr>
                else s1) in
      s2\<lparr> restart_handlers := restart_handlers s2 + 1 \<rparr>)"

text \<open>
  The scene object as \<^verbatim>\<open>new RunnerScene()\<close> leaves it: the field initialisers of the
  class, with empty groups; \<open>store\<close> is the browser's local storage.
\<close>

definition RunnerScene_new :: "(string \<rightharpoonup> string) \<Rightarrow> runner" where
  "RunnerScene_new store =
     \<lparr> score = 0, level = 1, spawnTimer = None, dragonSpawnTimer = None,
       dragonFireTimer = None, baseSpawnDelay = 1200, gameActive = True, dragonHealth = 0,
       player_x = 0, player_y = 0, player_velocity_y = 0,
       obstacles = [], dragons = [], fireParticles = [], particles = [],
       physics_paused = False, restart_handlers = 0, highscore_shown = Undefined,
       localStorage = store \<rparr>"

text \<open>
  \<^verbatim>\<open>create()\<close>: the player, four new empty groups, the highscore text and the spawn timer.
  It assigns none of \<^verbatim>\<open>score\<close>, \<^verbatim>\<open>level\<close>, \<^verbatim>\<open>gameActive\<close>, \<^verbatim>\<open>dragonSpawnTimer\<close>.
\<close>

definition create :: "runner \<Rightarrow> runner" where
  "create s =
     s\<lparr> player_x := 120, player_y := height - 120, player_velocity_y := 0,
        obstacles := [], dragons := [], fireParticles := [], particles := [],
        highscore_shown := read_highscore (localStorage s),
        spawnTimer := Some \<lparr> timer_delay = baseSpawnDelay s, timer_loop = True,
                             timer_alive = True \<rparr> \<rparr>"

text \<open>
  \<^verbatim>\<open>this.scene.restart()\<close> is the Phaser runtime's: it shuts the scene down (its game
  objects are destroyed, the events of its clock and its keyboard listeners are removed,
  its physics world is replaced) and runs \<^verbatim>\<open>create()\<close> again on the same scene object.
  The constructor and the field initialisers of the class do not run again.
\<close>

definition scene_shutdown :: "runner \<Rightarrow> runner" where
  "scene_shutdown s =
     s\<lparr> obstacles := [], dragons := [], fireParticles := [], particles := [],
        spawnTimer := remove_timer (spawnTimer s),
        dragonSpawnTimer := remove_timer (dragonSpawnTimer s),
        physics_paused := False, restart_handlers := 0 \<rparr>"

definition scene_restart :: "runner \<Rightarrow> runner" where
  "scene_restart s = create (scene_shutdown s)"

text \<open>The \<^verbatim>\<open>keydown-R\<close> event: it restarts the scene when a handler is registered.\<close>

definition key_R :: "runner \<Rightarrow> runner" where
  "key_R s = (if restart_handlers s > 0 then scene_restart s else s)"

subsection \<open>Events of a running scene\<close>

text \<open>
  The \<^verbatim>\<open>jump\<close> handler of \<^verbatim>\<open>keydown-SPACE\<close> and \<^verbatim>\<open>pointerdown\<close>; \<open>on_ground\<close> is
  \<^verbatim>\<open>body.blocked.down || body.touching.down\<close>, which the physics engine maintains.
\<close>

definition jump :: "bool \<Rightarrow> runner \<Rightarrow> runner" where
  "jump on_ground s =
     (if \<not> gameActive s then s
      else if on_ground
        then createDustParticles (player_x s) (player_y s + 32) (s\<lparr> player_velocity_y := - 520 \<rparr>)
      else s)"

text \<open>
  What can happen to a scene between two frames: a frame, a firing of one of the two
  clock events (a removed event no longer fires), a firing of the fire interval of the
  \<open>i\<close>-th dragon (the interval clears itself once its dragon is destroyed), the three
  overlap callbacks (the physics world reports none while it is paused), the two keys,
  and a step of the physics engine, which moves the player.
\<close>

definition timer_live :: "timer_event option \<Rightarrow> bool" where
  "timer_live t = (case t of None \<Rightarrow> False | Some e \<Rightarrow> timer_alive e)"

datatype runner_event =
  Update real | SpawnTimerFires nat | DragonTimerFires | FireInterval "nat \<Rightarrow> real" nat
  | OverlapObstacle | OverlapDragon "nat \<Rightarrow> real" nat | OverlapFire | KeyR | Jump bool
  | PhysicsStepPlayer real real real

fun runner_step :: "runner_event \<Rightarrow> runner \<Rightarrow> runner" where
  "runner_step (Update delta) s = update delta s"
| "runner_step (SpawnTimerFires pick) s =
     (if timer_live (spawnTimer s) then spawnObstacle pick s else s)"
| "runner_step DragonTimerFires s =
     (if timer_live (dragonSpawnTimer s) then spawnDragon s else s)"
| "runner_step (FireInterval rnd i) s =
     (if i < length (dragons s) then spawnFire rnd (dragons s ! i) s else s)"
| "runner_step OverlapObstacle s = (if physics_paused s then s else gameOver s)"
| "runner_step (OverlapDragon rnd i) s = (if physics_paused s then s else damageDragon rnd i s)"
| "runner_step OverlapFire s = (if physics_paused s then s else gameOver s)"
| "runner_step KeyR s = key_R s"
| "runner_step (Jump on_ground) s = jump on_ground s"
| "runner_step (PhysicsStepPlayer x y v) s =
     (if physics_paused s then s
      else s\<lparr> player_x := x, player_y := y, player_velocity_y := v \<rparr>)"

definition runner_run :: "runner_event list \<Rightarrow> runner \<Rightarrow> runner" where
  "runner_run evs s = fold runner_step evs s"

section \<open>Driving core (the two TrafficGame components)\<close>

text \<open>
  Two React components implement the driving game: the kinematic one moves the car by
  hand in its frame callback, the rigid-body one hands forces to a physics engine. The
  light cycle, the keyboard handling, the auto-reset effect and \<^verbatim>\<open>onCrossStopLine\<close> are
  the same text in both and are modelled once, on the part of the state the two share.

  Time is the wall clock in whole milliseconds; one \<open>Ms\<close> event is one millisecond in
  which every pending timer advances. A state setter followed by the effects that depend
  on the state is one step of the model. Numbers are mathematical reals.
\<close>

datatype light_color = Green | Yellow | Red

datatype round_status = Playing | Passed | Failed

text \<open>Where the asynchronous function \<^verbatim>\<open>cycle\<close> is suspended, or that it has returned.\<close>

datatype cycle_pc = AwaitGreen | AwaitYellow | AwaitRed | Exited

datatype key = ArrowUp | ArrowDown | ArrowLeft | ArrowRight | KeyP | OtherKey

fun LIGHT_DURATIONS :: "light_color \<Rightarrow> nat" where
  "LIGHT_DURATIONS Green = 6000"
| "LIGHT_DURATIONS Yellow = 1500"
| "LIGHT_DURATIONS Red = 5000"

record traffic =
  lightState :: light_color
  lightStart :: nat
  lightDuration :: nat
  lightTimeLeft :: nat
  status :: round_status
  traffic_score :: nat
  showInstructions :: bool
  speed :: real
  paused :: bool
  crossed :: bool
  trafficKeys :: "key \<Rightarrow> bool"
  clock :: nat
  mounted :: bool
  cycle_pc :: cycle_pc
  cycle_wait :: nat
  poll_wait :: nat
  reset_wait :: "nat option"

subsection \<open>The light cycle\<close>

definition setLight :: "light_color \<Rightarrow> 'a traffic_scheme \<Rightarrow> 'a traffic_scheme" where
  "setLight c s = s\<lparr> lightState := c, lightStart := clock s, lightDuration := LIGHT_DURATIONS c \<rparr>"

text \<open>
  The function \<^verbatim>\<open>cycle\<close> resumes when the timeout it awaits fires: it leaves the loop if
  the component was unmounted, else it sets the next colour and awaits that colour's
  duration.
\<close>

definition cycle_resume :: "'a traffic_scheme \<Rightarrow> 'a traffic_scheme" where
  "cycle_resume s =
     (case cycle_pc s of
        AwaitGreen \<Rightarrow>
          if \<not> mounted s then s\<lparr> cycle_pc := Exited \<rparr>
          else (setLight Yellow s)\<lparr> cycle_pc := AwaitYellow,
                                    cycle_wait := LIGHT_DURATIONS Yellow \<rparr>
      | AwaitYellow \<Rightarrow>
          if \<not> mounted s then s\<lparr> cycle_pc := Exited \<rparr>
          else (setLight Red s)\<lparr> cycle_pc := AwaitRed, cycle_wait := LIGHT_DURATIONS Red \<rparr>
      | AwaitRed \<Rightarrow>
          if \<not> mounted s then s\<lparr> cycle_pc := Exited \<rparr>
          else (setLight Green s)\<lparr> cycle_pc := AwaitGreen,
                                   cycle_wait := LIGHT_DURATIONS Green \<rparr>
      | Exited \<Rightarrow> s)"

definition cycle_tick :: "'a traffic_scheme \<Rightarrow> 'a traffic_scheme" where
  "cycle_tick s =
     (if cycle_pc s = Exited then s
      else if cycle_wait s \<le> 1 then cycle_resume s
      else s\<lparr> cycle_wait := cycle_wait s - 1 \<rparr>)"

text \<open>The progress poll (\<^verbatim>\<open>setInterval\<close>, 100 ms), cleared on unmount.\<close>

definition poll_tick :: "'a traffic_scheme \<Rightarrow> 'a traffic_scheme" where
  "poll_tick s =
     (if \<not> mounted s then s
      else if poll_wait s \<le> 1 then
        (let elapsed = clock s - lightStart s in
         s\<lparr> lightTimeLeft := (if lightDuration s \<le> elapsed then 0
                               else lightDuration s - elapsed),
            poll_wait := 100 \<rparr>)
      else s\<lparr> poll_wait := poll_wait s - 1 \<rparr>)"

subsection \<open>Round status and the auto-reset effect\<close>

text \<open>
  \<^verbatim>\<open>setStatus(v)\<close> together with the effect that depends on \<^verbatim>\<open>status\<close>: when the status
  changes, the pending timeout is cleared, and a new timeout of 4000 ms is set if the new
  status is \<^verbatim>\<open>passed\<close> or \<^verbatim>\<open>failed\<close>. Setting the status it already has does nothing.
\<close>

definition setStatus :: "round_status \<Rightarrow> 'a traffic_scheme \<Rightarrow> 'a traffic_scheme" where
  "setStatus v s =
     (if status s = v then s
      else s\<lparr> status := v,
              reset_wait := (if v = Passed \<or> v = Failed then Some 4000 else None) \<rparr>)"

definition onCrossStopLine :: "'a traffic_scheme \<Rightarrow> 'a traffic_scheme" where
  "onCrossStopLine s =
     (if lightState s = Red then setStatus Failed s
      else setStatus Passed (s\<lparr> traffic_score := traffic_score s + 1 \<rparr>))"

text \<open>The auto-reset timeout; \<open>reset\<close> is the component's own \<^verbatim>\<open>reset\<close>.\<close>

definition reset_tick ::
  "('a traffic_scheme \<Rightarrow> 'a traffic_scheme) \<Rightarrow> 'a traffic_scheme \<Rightarrow> 'a traffic_scheme" where
  "reset_tick reset s =
     (case reset_wait s of
        None \<Rightarrow> s
      | Some r \<Rightarrow> if r \<le> 1 then reset (s\<lparr> reset_wait := None \<rparr>)
                 else s\<lparr> reset_wait := Some (r - 1) \<rparr>)"

text \<open>One millisecond: the clock advances, then the timers in the order they were set.\<close>

definition ms_tick ::
  "('a traffic_scheme \<Rightarrow> 'a traffic_scheme) \<Rightarrow> 'a traffic_scheme \<Rightarrow> 'a traffic_scheme" where
  "ms_tick reset s = reset_tick reset (poll_tick (cycle_tick (s\<lparr> clock := clock s + 1 \<rparr>)))"

subsection \<open>Keyboard\<close>

definition is_arrow :: "key \<Rightarrow> bool" where
  "is_arrow k = (k = ArrowUp \<or> k = ArrowDown \<or> k = ArrowLeft \<or> k = ArrowRight)"

definition keydown :: "key \<Rightarrow> 'a traffic_scheme \<Rightarrow> 'a traffic_scheme" where
  "keydown k s =
     (if is_arrow k then s\<lparr> trafficKeys := (trafficKeys s)(k := True), showInstructions := False \<rparr>
      else if k = KeyP then s\<lparr> paused := \<not> paused s \<rparr>
      else s)"

definition keyup :: "key \<Rightarrow> 'a traffic_scheme \<Rightarrow> 'a traffic_scheme" where
  "keyup k s = (if is_arrow k then s\<lparr> trafficKeys := (trafficKeys s)(k := False) \<rparr> else s)"

text \<open>Unmounting runs the cleanups: the cycle's flag, the poll, the pending auto-reset.\<close>

definition unmount :: "'a traffic_scheme \<Rightarrow> 'a traffic_scheme" where
  "unmount s = s\<lparr> mounted := False, reset_wait := None \<rparr>"

subsection \<open>Kinematic mode\<close>

text \<open>
  The car is a group object with a position and a rotation; its velocity and heading
  live in the object \<^verbatim>\<open>physics.current\<close> of the component \<^verbatim>\<open>Car\<close> (\<open>vx\<close>, \<open>vz\<close>,
  \<open>angle\<close>). \<open>group_physics\<close> is the property \<^verbatim>\<open>__physics\<close> of the group object, which
  \<^verbatim>\<open>reset\<close> looks for; no statement of the program assigns it.
\<close>

record kinematic = traffic +
  position_x :: real
  position_y :: real
  position_z :: real
  rotation_y :: real
  vx :: real
  vz :: real
  angle :: real
  group_physics :: "(real \<times> real \<times> real) option"

definition k_onBarrierHit :: "kinematic \<Rightarrow> kinematic" where
  "k_onBarrierHit s = (if status s = Playing then setStatus Failed s else s)"

definition k_reset :: "kinematic \<Rightarrow> kinematic" where
  "k_reset s =
     (let s1 = setStatus Playing (s\<lparr> crossed := False \<rparr>);
          s2 = s1\<lparr> position_x := 0, position_y := 0.3, position_z := 18, rotation_y := 0 \<rparr> in
      case group_physics s2 of
        None \<Rightarrow> s2
      | Some ph \<Rightarrow> s2\<lparr> group_physics := Some (0, 0, 0) \<rparr>)"

text \<open>
  The frame callback of \<^verbatim>\<open>Car\<close>; \<open>delta\<close> is the frame time in seconds. Its stages
  are written as functions of their own, in the order of the source: the capped frame
  time, steering, the held keys' effect on the velocity, the speed cap, and then the
  barrier check, the move and the stop-line check.
\<close>

definition capped_delta :: "real \<Rightarrow> real" where
  "capped_delta delta = min delta 0.05"

definition steer_input :: "'a traffic_scheme \<Rightarrow> real" where
  "steer_input s =
     (if trafficKeys s ArrowLeft then 1 else 0) - (if trafficKeys s ArrowRight then 1 else 0)"

definition steered_angle :: "real \<Rightarrow> kinematic \<Rightarrow> real" where
  "steered_angle delta s =
     (let d = capped_delta delta;
          speed0 = sqrt (vx s * vx s + vz s * vz s) in
      if speed0 > 0.2 then angle s + steer_input s * min (speed0 * 0.4) 1.4 * d
      else angle s)"

definition input_velocity :: "real \<Rightarrow> kinematic \<Rightarrow> real \<times> real" where
  "input_velocity delta s =
     (let d = capped_delta delta;
          fx = - sin (steered_angle delta s);
          fz = - cos (steered_angle delta s) in
      if trafficKeys s ArrowUp then (vx s + fx * 18 * d, vz s + fz * 18 * d)
      else if trafficKeys s ArrowDown
        then (vx s * max 0 (1 - 12 * d), vz s * max 0 (1 - 12 * d))
      else (vx s * max 0 (1 - 3 * d), vz s * max 0 (1 - 3 * d)))"

definition input_speed :: "real \<Rightarrow> kinematic \<Rightarrow> real" where
  "input_speed delta s =
     (let (vx1, vz1) = input_velocity delta s in sqrt (vx1 * vx1 + vz1 * vz1))"

definition capped_velocity :: "real \<Rightarrow> kinematic \<Rightarrow> real \<times> real" where
  "capped_velocity delta s =
     (let (vx1, vz1) = input_velocity delta s;
          spd = input_speed delta s in
      if spd > 14 then (vx1 / spd * 14, vz1 / spd * 14) else (vx1, vz1))"

text \<open>The integrated next position, \<^verbatim>\<open>nx\<close> and \<^verbatim>\<open>nz\<close> of the source.\<close>

definition next_x :: "real \<Rightarrow> kinematic \<Rightarrow> real" where
  "next_x delta s = position_x s + fst (capped_velocity delta s) * capped_delta delta"

definition next_z :: "real \<Rightarrow> kinematic \<Rightarrow> real" where
  "next_z delta s = position_z s + snd (capped_velocity delta s) * capped_delta delta"

definition k_frame :: "real \<Rightarrow> kinematic \<Rightarrow> kinematic" where
  "k_frame delta s =
     (if paused s then s
      else
        (let d = capped_delta delta;
             angle1 = steered_angle delta s;
             spd = input_speed delta s;
             (vx2, vz2) = capped_velocity delta s;
             nx = position_x s + vx2 * d;
             nz = position_z s + vz2 * d in
         if \<bar>nx\<bar> > 4.5 then (k_onBarrierHit s)\<lparr> vx := 0, vz := 0, angle := angle1 \<rparr>
         else
           (let s1 = s\<lparr> speed := spd, position_x := nx, position_z := nz,
                        rotation_y := angle1, vx := vx2, vz := vz2, angle := angle1 \<rparr> in
            if \<not> crossed s1 \<and> nz < 0 then onCrossStopLine (s1\<lparr> crossed := True \<rparr>)
            else s1)))"

datatype kinematic_event =
  KMs | KFrame real | KKeyDown key | KKeyUp key | KClickReset | KUnmount

fun k_step :: "kinematic_event \<Rightarrow> kinematic \<Rightarrow> kinematic" where
  "k_step KMs s = ms_tick k_reset s"
| "k_step (KFrame delta) s = k_frame delta s"
| "k_step (KKeyDown k) s = keydown k s"
| "k_step (KKeyUp k) s = keyup k s"
| "k_step KClickReset s = k_reset s"
| "k_step KUnmount s = unmount s"

definition k_run :: "kinematic_event list \<Rightarrow> kinematic \<Rightarrow> kinematic" where
  "k_run evs s = fold k_step evs s"

text \<open>The component as mounted at clock time \<open>t0\<close>: the car at its spawn pose, the light
  cycle at its first await.\<close>

definition k_mount :: "nat \<Rightarrow> kinematic" where
  "k_mount t0 =
     \<lparr> lightState = Green, lightStart = t0, lightDuration = LIGHT_DURATIONS Green,
       lightTimeLeft = LIGHT_DURATIONS Green, status = Playing, traffic_score = 0,
       showInstructions = True, speed = 0, paused = False, crossed = False,
       trafficKeys = (\<lambda>k. False), clock = t0, mounted = True, cycle_pc = AwaitGreen,
       cycle_wait = LIGHT_DURATIONS Green, poll_wait = 100, reset_wait = None,
       position_x = 0, position_y = 0.3, position_z = 18, rotation_y = 0,
       vx = 0, vz = 0, angle = 0, group_physics = None \<rparr>"

subsection \<open>Rigid-body mode\<close>

text \<open>
  The car is a rigid body of a physics engine. The component reads the body's
  translation, rotation and velocities and hands forces and torques to the engine; the
  engine's own integration is outside the program, so a physics step is an event that
  brings an arbitrary new body state. The barrier's \<^verbatim>\<open>onCollisionEnter\<close> is an event
  of the engine as well. Sound and the drawing of the hit effects are presentation and
  are left out; \<open>hits\<close> keeps only the times of the recorded hits.
\<close>

record vec3 =
  vec_x :: real
  vec_y :: real
  vec_z :: real

record quaternion =
  quat_x :: real
  quat_y :: real
  quat_z :: real
  quat_w :: real

definition zero_vec :: vec3 where
  "zero_vec = \<lparr> vec_x = 0, vec_y = 0, vec_z = 0 \<rparr>"

record body =
  translation :: vec3
  rotation :: quaternion
  linvel :: vec3
  angvel :: vec3

record rigid = traffic +
  car_body :: body
  savedVel :: "(vec3 \<times> vec3) option"
  forces :: "vec3 list"
  torques :: "vec3 list"
  hits :: "(vec3 \<times> nat) list"
  prune_wait :: nat

text \<open>
  \<^verbatim>\<open>new Vector3(0, 0, 1).applyQuaternion(q).normalize()\<close>; a vector of length 0 is divided
  by 1.
\<close>

definition forward_of :: "quaternion \<Rightarrow> vec3" where
  "forward_of q =
     (let fx = 2 * (quat_w q * quat_y q + quat_z q * quat_x q);
          fy = 2 * (quat_z q * quat_y q - quat_w q * quat_x q);
          fz = 1 - 2 * (quat_x q * quat_x q + quat_y q * quat_y q);
          len = sqrt (fx * fx + fy * fy + fz * fz);
          n = (if len = 0 then 1 else len) in
      \<lparr> vec_x = fx / n, vec_y = fy / n, vec_z = fz / n \<rparr>)"

definition r_frame :: "rigid \<Rightarrow> rigid" where
  "r_frame s =
     (if paused s then s
      else
        (let throttle = trafficKeys s ArrowUp;
             brake = trafficKeys s ArrowDown;
             steer = (if trafficKeys s ArrowLeft then 1 else 0)
                     - (if trafficKeys s ArrowRight then 1 else 0 :: real);
             forward = forward_of (rotation (car_body s));
             lin = linvel (car_body s);
             force =
               (if throttle then
                  \<lparr> vec_x = vec_x forward * - 6000, vec_y = 0, vec_z = vec_z forward * - 6000 \<rparr>
                else if brake then
                  \<lparr> vec_x = - vec_x lin * min 18000 (\<bar>vec_x lin\<bar> * 200), vec_y = 0,
                    vec_z = - vec_z lin * min 18000 (\<bar>vec_z lin\<bar> * 200) \<rparr>
                else \<lparr> vec_x = - vec_x lin * 120, vec_y = 0, vec_z = - vec_z lin * 120 \<rparr>);
             s1 = s\<lparr> forces := forces s @ [force] \<rparr>;
             s2 = (if steer \<noteq> 0
                   then s1\<lparr> torques := torques s1 @
                              [\<lparr> vec_x = 0, vec_y = steer * 1.6 * 80, vec_z = 0 \<rparr>] \<rparr>
                   else s1);
             s3 = s2\<lparr> speed := sqrt (vec_x lin * vec_x lin + vec_y lin * vec_y lin
                                        + vec_z lin * vec_z lin) \<rparr>;
             pos = translation (car_body s3) in
         if \<not> crossed s3 \<and> vec_z pos < 0 then onCrossStopLine (s3\<lparr> crossed := True \<rparr>)
         else s3))"

text \<open>\<^verbatim>\<open>onBarrierHit\<close>: the status, then the hit effect at the body's position.\<close>

definition r_onBarrierHit :: "rigid \<Rightarrow> rigid" where
  "r_onBarrierHit s =
     (let s1 = setStatus Failed s in
      s1\<lparr> hits := hits s1 @ [(translation (car_body s1), clock s1)] \<rparr>)"

definition r_reset :: "rigid \<Rightarrow> rigid" where
  "r_reset s =
     (let s1 = setStatus Playing (s\<lparr> crossed := False \<rparr>) in
      s1\<lparr> car_body := (car_body s1)\<lparr> translation := \<lparr> vec_x = 0, vec_y = 0.4, vec_z = 18 \<rparr>,
                                      linvel := zero_vec, angvel := zero_vec \<rparr> \<rparr>)"

text \<open>
  The effect on \<^verbatim>\<open>paused\<close>: pausing saves the body's velocities and zeroes them, resuming
  restores what was saved.
\<close>

definition pause_effect :: "rigid \<Rightarrow> rigid" where
  "pause_effect s =
     (if paused s then
        s\<lparr> savedVel := Some (linvel (car_body s), angvel (car_body s)),
           car_body := (car_body s)\<lparr> linvel := zero_vec, angvel := zero_vec \<rparr> \<rparr>
      else
        (case savedVel s of
           None \<Rightarrow> s
         | Some (lin, ang) \<Rightarrow>
             s\<lparr> car_body := (car_body s)\<lparr> linvel := lin, angvel := ang \<rparr>, savedVel := None \<rparr>))"

definition r_keydown :: "key \<Rightarrow> rigid \<Rightarrow> rigid" where
  "r_keydown k s = (if k = KeyP then pause_effect (keydown k s) else keydown k s)"

text \<open>The interval that drops hit effects older than 1000 ms, every 250 ms.\<close>

definition prune_tick :: "rigid \<Rightarrow> rigid" where
  "prune_tick s =
     (if \<not> mounted s then s
      else if prune_wait s \<le> 1 then
        s\<lparr> hits := filter (\<lambda>h. snd h + 1000 \<ge> clock s) (hits s), prune_wait := 250 \<rparr>
      else s\<lparr> prune_wait := prune_wait s - 1 \<rparr>)"

text \<open>
  The component \<^verbatim>\<open>Car\<close> sets the body's translation to its \<^verbatim>\<open>position\<close> property in an
  effect that depends on that property, and the game passes a new array \<^verbatim>\<open>[0, 0.4, 18]\<close>
  on every render: each re-render of the game runs the effect again.
\<close>

definition position_effect :: "rigid \<Rightarrow> rigid" where
  "position_effect s =
     s\<lparr> car_body := (car_body s)\<lparr> translation := \<lparr> vec_x = 0, vec_y = 0.4, vec_z = 18 \<rparr> \<rparr> \<rparr>"

text \<open>
  The game re-renders when a state setter has stored a value that differs from the one
  it held. \<open>rendered\<close> are the values of the state hooks that are compared by value; the
  hook \<^verbatim>\<open>hits\<close> holds an array, and both of its updates (\<^verbatim>\<open>addHit\<close>, the pruning
  interval) store a new array, so each of them re-renders the game.
\<close>

definition rendered ::
  "rigid \<Rightarrow> light_color \<times> nat \<times> round_status \<times> nat \<times> bool \<times> real \<times> bool" where
  "rendered s =
     (lightState s, lightTimeLeft s, status s, traffic_score s, showInstructions s, speed s,
      paused s)"

definition render :: "rigid \<Rightarrow> rigid \<Rightarrow> rigid" where
  "render s s' = (if rendered s' \<noteq> rendered s then position_effect s' else s')"

definition prune_fires :: "rigid \<Rightarrow> bool" where
  "prune_fires s = (mounted s \<and> prune_wait s \<le> 1)"

text \<open>
  The events of the component. \<open>RRender\<close> is a re-render that the component's parent
  causes.
\<close>

datatype rigid_event =
  RMs | RFrame | RKeyDown key | RKeyUp key | RClickReset | RUnmount
  | BarrierContact | PhysicsStep body | RRender

fun r_step :: "rigid_event \<Rightarrow> rigid \<Rightarrow> rigid" where
  "r_step RMs s =
     (let s1 = ms_tick r_reset s in
      if prune_fires s1 then position_effect (prune_tick s1) else render s (prune_tick s1))"
| "r_step RFrame s = render s (r_frame s)"
| "r_step (RKeyDown k) s = render s (r_keydown k s)"
| "r_step (RKeyUp k) s = keyup k s"
| "r_step RClickReset s = render s (r_reset s)"
| "r_step RUnmount s = unmount s"
| "r_step BarrierContact s = position_effect (r_onBarrierHit s)"
| "r_step (PhysicsStep b) s = s\<lparr> car_body := b, forces := [], torques := [] \<rparr>"
| "r_step RRender s = position_effect s"

definition r_run :: "rigid_event list \<Rightarrow> rigid \<Rightarrow> rigid" where
  "r_run evs s = fold r_step evs s"

definition r_mount :: "nat \<Rightarrow> rigid" where
  "r_mount t0 =
     \<lparr> lightState = Green, lightStart = t0, lightDuration = LIGHT_DURATIONS Green,
       lightTimeLeft = LIGHT_DURATIONS Green, status = Playing, traffic_score = 0,
       showInstructions = True, speed = 0, paused = False, crossed = False,
       trafficKeys = (\<lambda>k. False), clock = t0, mounted = True, cycle_pc = AwaitGreen,
       cycle_wait = LIGHT_DURATIONS Green, poll_wait = 100, reset_wait = None,
       car_body = \<lparr> translation = \<lparr> vec_x = 0, vec_y = 0.4, vec_z = 18 \<rparr>,
                    rotation = \<lparr> quat_x = 0, quat_y = 0, quat_z = 0, quat_w = 1 \<rparr>,
                    linvel = zero_vec, angvel = zero_vec \<rparr>,
       savedVel = None, forces = [], torques = [], hits = [], prune_wait = 250 \<rparr>"

section \<open>Reference definitions\<close>

text \<open>
  The light phase as the specification words it: from the mount, green for 6000 ms, then
  yellow for 1500 ms, then red for 5000 ms, and again from the start.
\<close>

definition spec_light_phase :: "nat \<Rightarrow> light_color" where
  "spec_light_phase t =
     (if t mod 12500 < 6000 then Green else if t mod 12500 < 7500 then Yellow else Red)"

text \<open>
  The part of the state the light cycle owns, and what it is \<open>n\<close> milliseconds after the
  mount while the component stays mounted.
\<close>

definition light_part :: "'a traffic_scheme \<Rightarrow> light_color \<times> cycle_pc \<times> nat \<times> bool" where
  "light_part s = (lightState s, cycle_pc s, cycle_wait s, mounted s)"

definition light_inv :: "nat \<Rightarrow> light_color \<times> cycle_pc \<times> nat \<times> bool \<Rightarrow> bool" where
  "light_inv n p =
     (let m = n mod 12500 in
      if m < 6000 then p = (Green, AwaitGreen, 6000 - m, True)
      else if m < 7500 then p = (Yellow, AwaitYellow, 7500 - m, True)
      else p = (Red, AwaitRed, 12500 - m, True))"


text \<open>
  A kinematic frame that stops at the barrier, and one that moves the car to a negative
  \<open>z\<close>.
\<close>

definition k_barrier :: "real \<Rightarrow> kinematic \<Rightarrow> bool" where
  "k_barrier delta s = (\<not> paused s \<and> \<bar>next_x delta s\<bar> > 4.5)"

definition k_crosses :: "real \<Rightarrow> kinematic \<Rightarrow> bool" where
  "k_crosses delta s = (\<not> paused s \<and> \<not> \<bar>next_x delta s\<bar> > 4.5 \<and> next_z delta s < 0)"







text \<open>One millisecond without the auto-reset timeout: the clock, the cycle and the poll.\<close>

definition quiet_ms :: "'a traffic_scheme \<Rightarrow> 'a traffic_scheme" where
  "quiet_ms s = poll_tick (cycle_tick (s\<lparr> clock := clock s + 1 \<rparr>))"

text \<open>The characters \<^verbatim>\<open>String\<close> writes for a number that is not negative.\<close>

definition plain_digit :: "char \<Rightarrow> bool" where
  "plain_digit c = (\<exists>k<10. c = ''0123456789'' ! k)"

text \<open>Every dragon of the group has 1, 2 or 3 hits left.\<close>

definition health_ok :: "runner \<Rightarrow> bool" where
  "health_ok s = list_all (\<lambda>d. data_health d = 1 \<or> data_health d = 2 \<or> data_health d = 3) (dragons s)"

text \<open>A frame with a non-negative \<open>delta\<close>; every other event qualifies.\<close>

definition nonneg_delta :: "runner_event \<Rightarrow> bool" where
  "nonneg_delta ev = (case ev of Update delta \<Rightarrow> 0 \<le> delta | _ \<Rightarrow> True)"

text \<open>
  After a game over: the game is inactive, and either the physics world is paused or no
  dragon exists and none will be spawned.
\<close>

definition game_over_inv :: "runner \<Rightarrow> bool" where
  "game_over_inv s =
     (\<not> gameActive s \<and>
      (physics_paused s \<or> (dragons s = [] \<and> \<not> timer_live (dragonSpawnTimer s))))"

section \<open>Scenarios\<close>

text \<open>
  A runner scene with one freshly spawned dragon (health 3) and the player falling at 100.
\<close>

definition stomp_scene :: runner where
  "stomp_scene =
     (spawnDragon (create (RunnerScene_new Map.empty)))\<lparr> player_velocity_y := 100 \<rparr>"

text \<open>A game of 30 ticks of 1000 ms (score 300, level 2), then game over, then key R.\<close>

definition restarted_game :: runner where
  "restarted_game =
     key_R (gameOver ((update 1000 ^^ 30) (create (RunnerScene_new Map.empty))))"

text \<open>A store whose highscore entry is not a number.\<close>

definition corrupt_store :: "string \<rightharpoonup> string" where
  "corrupt_store = [''barrelJumpHighscore'' \<mapsto> ''abc'']"


text \<open>A runner scene at score 12.5 with the stored highscore 7.\<close>

definition stored_7 :: runner where
  "stored_7 =
     (create (RunnerScene_new [''barrelJumpHighscore'' \<mapsto> ''7'']))\<lparr> score := 12.5 \<rparr>"

text \<open>
  A kinematic car 0.01 before the line \<open>z = 0\<close>, rolling forward at speed 1 on green, and
  a rigid body the engine has moved to \<open>z = -0.5\<close> on green.
\<close>

definition crossing_car :: kinematic where
  "crossing_car = (k_mount 0)\<lparr> position_z := 0.01, vz := - 1 \<rparr>"

definition crossing_body :: rigid where
  "crossing_body =
     (r_mount 0)\<lparr> car_body := (car_body (r_mount 0))\<lparr> translation :=
                     \<lparr> vec_x = 0, vec_y = 0.4, vec_z = - 0.5 \<rparr> \<rparr> \<rparr>"

text \<open>
  A kinematic car 0.1 from the right barrier and 0.01 before the stop line, rolling at
  speed 10 along its heading \<open>(3/5, -4/5)\<close>, towards the barrier and the line, on green
  with no key held.
\<close>

definition diagonal :: real where
  "diagonal = - arcsin (3 / 5)"

definition barrier_car :: kinematic where
  "barrier_car =
     (k_mount 0)\<lparr> position_x := 4.4, position_z := 0.01, rotation_y := diagonal,
                   vx := 6, vz := - 8, angle := diagonal \<rparr>"

text \<open>The freshly mounted kinematic car with the accelerate key held.\<close>

definition accelerating_car :: kinematic where
  "accelerating_car = keydown ArrowUp (k_mount 0)"

text \<open>
  The car of \<open>barrier_car\<close> after the frame in which it hit the barrier, with the
  accelerate key pressed since.
\<close>

definition after_barrier :: kinematic where
  "after_barrier =
     keydown ArrowUp ((setStatus Failed barrier_car)\<lparr> vx := 0, vz := 0, angle := diagonal \<rparr>)"

text \<open>
  A running scene with three barrels, the first of which is about to leave the screen on
  the left.
\<close>

definition leaving_scene :: runner where
  "leaving_scene =
     (create (RunnerScene_new Map.empty))
       \<lparr> obstacles := [\<lparr> obstacle_x = - 98, obstacle_y = 438, obstacle_type = Barrel \<rparr>,
                       \<lparr> obstacle_x = 300, obstacle_y = 438, obstacle_type = Barrel \<rparr>,
                       \<lparr> obstacle_x = 700, obstacle_y = 438, obstacle_type = Barrel \<rparr>] \<rparr>"



text \<open>A fresh game, and two frames of 16 ms around a jump.\<close>

definition played_game :: runner where
  "played_game = create (RunnerScene_new Map.empty)"

definition played_events :: "runner_event list" where
  "played_events = [Update 16, Jump True, PhysicsStepPlayer 120 300 40, Update 16]"

section \<open>Properties of the runner core\<close>

subsection \<open>The update loop\<close>

lemma update_inactive: "\<not> gameActive s \<Longrightarrow> update delta s = s"
  by (simp add: update_def)

lemma level_up_fields:
  "score (level_up lvl s) = score s"
  "level (level_up lvl s) = lvl"
  "gameActive (level_up lvl s) = gameActive s"
  "obstacles (level_up lvl s) = obstacles s"
  "particles (level_up lvl s) = particles s"
  "fireParticles (level_up lvl s) = fireParticles s"
  by (simp_all add: level_up_def spawnDragon_def Let_def)

lemma update_score: "gameActive s \<Longrightarrow> score (update delta s) = score s + delta * 0.01"
  by (simp add: update_def Let_def level_up_fields)

lemma update_level:
  "gameActive s \<Longrightarrow> level (update delta s) = \<lfloor>score (update delta s) / 250\<rfloor> + 1"
  by (simp add: update_def Let_def level_up_fields)

lemma update_gameActive: "gameActive (update delta s) = gameActive s"
  by (simp add: update_def Let_def level_up_fields)

lemma update_obstacles:
  "gameActive s \<Longrightarrow>
   obstacles (update delta s) = move_obstacles (level (update delta s)) delta (obstacles s)"
  by (simp add: update_def Let_def level_up_fields)

text \<open>
  The iteration: where the callback destroys nothing it is a map; it never adds a sprite;
  and it keeps a property of the sprites that the callback keeps.
\<close>

lemma children_iterate_kept:
  "list_all (\<lambda>x. f x \<noteq> None) xs \<Longrightarrow> children_iterate f xs = map (\<lambda>x. the (f x)) xs"
  by (induction f xs rule: children_iterate.induct) auto

lemma children_iterate_first:
  "f x = None \<Longrightarrow> list_all (\<lambda>x. f x \<noteq> None) ys \<Longrightarrow>
   children_iterate f (x # y # ys) = y # map (\<lambda>x. the (f x)) ys"
  by (simp add: children_iterate_kept)

lemma length_children_iterate: "length (children_iterate f xs) \<le> length xs"
  by (induction f xs rule: children_iterate.induct) (auto split: option.splits)

lemma children_iterate_list_all:
  assumes "\<And>x x'. P x \<Longrightarrow> f x = Some x' \<Longrightarrow> P x'"
  shows "list_all P xs \<Longrightarrow> list_all P (children_iterate f xs)"
  using assms by (induction f xs rule: children_iterate.induct) (auto split: option.splits)

lemma move_obstacle_kept:
  "(move_obstacle lvl delta ob \<noteq> None) =
     (\<not> obstacle_x ob - (300 + (real_of_int lvl - 1) * 30) * (delta / 1000) < - 100)"
  "move_obstacle lvl delta ob \<noteq> None \<Longrightarrow>
   the (move_obstacle lvl delta ob) =
     ob\<lparr> obstacle_x := obstacle_x ob - (300 + (real_of_int lvl - 1) * 30) * (delta / 1000) \<rparr>"
  by (auto simp: move_obstacle_def Let_def split: if_splits)

lemma move_dragon_kept:
  "(move_dragon lvl delta d \<noteq> None) =
     (\<not> dragon_x d - (250 + (real_of_int lvl - 1) * 20) * (delta / 1000) < - 150)"
  "move_dragon lvl delta d \<noteq> None \<Longrightarrow>
   the (move_dragon lvl delta d) =
     d\<lparr> dragon_x := dragon_x d - (250 + (real_of_int lvl - 1) * 20) * (delta / 1000) \<rparr>"
  by (auto simp: move_dragon_def Let_def split: if_splits)

lemma update_iterated_score:
  "gameActive s \<Longrightarrow> score ((update delta ^^ n) s) = score s + real n * (delta * 0.01)"
proof (induction n)
  case 0
  then show ?case by simp
next
  case (Suc n)
  have "gameActive ((update delta ^^ n) s)"
    using Suc.prems by (induction n) (simp_all add: update_gameActive)
  then show ?case
    using Suc by (simp add: update_score algebra_simps)
qed

text \<open>
  Scenario: 25 ticks of 1000 ms from score 0. The score is 240 at level 1 after 24 ticks and
  250 at level 2 after the 25th.
\<close>

lemma update_25_ticks:
  assumes "gameActive s" and "score s = 0"
  shows "score ((update 1000 ^^ 24) s) = 240 \<and> level ((update 1000 ^^ 24) s) = 1 \<and>
         score ((update 1000 ^^ 25) s) = 250 \<and> level ((update 1000 ^^ 25) s) = 2"
proof -
  have a: "gameActive ((update 1000 ^^ n) s)" for n
    using assms(1) by (induction n) (simp_all add: update_gameActive)
  have s23: "score ((update 1000 ^^ 23) s) = 230" and s24: "score ((update 1000 ^^ 24) s) = 240"
    and s25: "score ((update 1000 ^^ 25) s) = 250"
    using assms by (simp_all add: update_iterated_score)
  have "(update 1000 ^^ 24) s = update 1000 ((update 1000 ^^ 23) s)"
    by (simp add: eval_nat_numeral)
  then have l24: "level ((update 1000 ^^ 24) s) = 1"
    using update_level [OF a [of 23], of 1000] s24 by simp
  have "(update 1000 ^^ 25) s = update 1000 ((update 1000 ^^ 24) s)"
    by (simp add: eval_nat_numeral)
  then have l25: "level ((update 1000 ^^ 25) s) = 2"
    using update_level [OF a [of 24], of 1000] s25 by simp
  show ?thesis using s24 s25 l24 l25 by simp
qed

text \<open>
  Sprites whose property \<^verbatim>\<open>life\<close> was never assigned: the dust loop skips them, the fire
  loop turns the property into \<^verbatim>\<open>NaN\<close>; neither destroys them.
\<close>

lemma update_particles_undefined:
  assumes "list_all (\<lambda>p. life p = Undefined) ps"
  shows "update_particles delta ps = ps"
proof -
  have k: "list_all (\<lambda>p. update_particle delta p \<noteq> None) ps"
    using assms by (simp add: list_all_iff update_particle_def)
  have "map (\<lambda>p. the (update_particle delta p)) ps = map (\<lambda>p. p) ps"
    using assms by (intro map_cong) (simp_all add: list_all_iff update_particle_def)
  then show ?thesis
    by (simp add: update_particles_def children_iterate_kept [OF k])
qed

lemma update_fire_undefined:
  assumes "list_all (\<lambda>p. life p = Undefined) fs"
  shows "update_fire delta fs = map (\<lambda>f. f\<lparr> life := NaN, alpha := NaN \<rparr>) fs"
proof -
  have k: "list_all (\<lambda>f. update_fire_particle delta f \<noteq> None) fs"
    using assms by (simp add: list_all_iff update_fire_particle_def Let_def)
  have "map (\<lambda>f. the (update_fire_particle delta f)) fs
          = map (\<lambda>f. f\<lparr> life := NaN, alpha := NaN \<rparr>) fs"
    using assms by (intro map_cong) (simp_all add: list_all_iff update_fire_particle_def Let_def)
  then show ?thesis
    by (simp add: update_fire_def children_iterate_kept [OF k])
qed

lemma dust_life: "life (dust x y i) = Undefined"
  by (simp add: dust_def group_add_def Let_def)

lemma fire_life: "life (fire rnd d i) = Undefined"
  by (simp add: fire_def group_add_def Let_def)

text \<open>
  Claim C2 (the particle part fails on the code). A dust burst made by
  \<^verbatim>\<open>createDustParticles\<close> carries its lifetime 0.6 s in the data store, and \<^verbatim>\<open>update\<close>
  reads the sprite property \<^verbatim>\<open>life\<close> instead. After a tick of 1000 ms, longer than the
  lifetime, all six sprites are still in the group and unchanged; the eight sprites of a
  fire burst (lifetime 0.8 s) are all still there too, with \<^verbatim>\<open>life\<close> and \<^verbatim>\<open>alpha\<close> now
  \<^verbatim>\<open>NaN\<close>.
\<close>

theorem update_never_expires_particles:
  "particles (update 1000 (createDustParticles 0 0 (create (RunnerScene_new Map.empty))))
     = map (dust 0 0) [0..<6] \<and>
   fireParticles (update 1000 (spawnFire rnd d (create (RunnerScene_new Map.empty))))
     = map (\<lambda>i. (fire rnd d i)\<lparr> life := NaN, alpha := NaN \<rparr>) [0..<8]"
  by (simp add: update_def createDustParticles_def spawnFire_def create_def RunnerScene_new_def
      level_up_def Let_def update_particles_undefined update_fire_undefined list_all_iff
      dust_life fire_life comp_def)

subsection \<open>Combat\<close>

lemma createDustParticles_fields [simp]:
  "dragons (createDustParticles x y s) = dragons s"
  "score (createDustParticles x y s) = score s"
  "player_velocity_y (createDustParticles x y s) = player_velocity_y s"
  "particles (createDustParticles x y s) = particles s @ map (dust x y) [0..<6]"
  by (simp_all add: createDustParticles_def)

lemma damageDragon_not_downward: "player_velocity_y s \<le> 0 \<Longrightarrow> damageDragon rnd i s = s"
  by (simp add: damageDragon_def)

lemma damageDragon_nonlethal:
  assumes "0 < player_velocity_y s" "i < length (dragons s)" "1 < data_health (dragons s ! i)"
  shows "dragons (damageDragon rnd i s) =
           (dragons s)[i := (dragons s ! i)\<lparr> data_health := data_health (dragons s ! i) - 1,
                                             dragon_x := dragon_x (dragons s ! i) - 30 \<rparr>]"
    and "score (damageDragon rnd i s) = score s"
    and "particles (damageDragon rnd i s) =
           particles s @ map (dust (dragon_x (dragons s ! i)) (dragon_y (dragons s ! i))) [0..<6]"
    and "player_velocity_y (damageDragon rnd i s) = player_velocity_y s"
  using assms by (simp_all add: damageDragon_def Let_def)

lemma damageDragon_lethal:
  assumes "0 < player_velocity_y s" "i < length (dragons s)" "data_health (dragons s ! i) = 1"
  shows "dragons (damageDragon rnd i s) = take i (dragons s) @ drop (Suc i) (dragons s)"
    and "score (damageDragon rnd i s) = score s + 50"
    and "length (particles (damageDragon rnd i s)) = length (particles s) + 24"
  using assms by (simp_all add: damageDragon_def Let_def numeral_3_eq_3 upt_rec [of 0])

text \<open>Three stomps on a dragon of health 3.\<close>

lemma damageDragon_three_stomps:
  fixes r1 r2 r3 :: "nat \<Rightarrow> real"
  assumes v: "0 < player_velocity_y s" and i: "i < length (dragons s)"
    and h: "data_health (dragons s ! i) = 3"
  defines "s1 \<equiv> damageDragon r1 i s"
  defines "s2 \<equiv> damageDragon r2 i s1"
  defines "s3 \<equiv> damageDragon r3 i s2"
  shows "length (dragons s1) = length (dragons s) \<and> data_health (dragons s1 ! i) = 2 \<and>
         length (dragons s2) = length (dragons s) \<and> data_health (dragons s2 ! i) = 1 \<and>
         score s2 = score s \<and>
         dragons s3 = take i (dragons s) @ drop (Suc i) (dragons s) \<and>
         score s3 = score s + 50"
proof -
  have d1: "dragons s1 = (dragons s)[i := (dragons s ! i)\<lparr> data_health := 2,
              dragon_x := dragon_x (dragons s ! i) - 30 \<rparr>]"
    and sc1: "score s1 = score s" and v1: "0 < player_velocity_y s1"
    using damageDragon_nonlethal [of s i r1] v i h by (simp_all add: s1_def)
  have i1: "i < length (dragons s1)" and h1: "data_health (dragons s1 ! i) = 2"
    using i by (simp_all add: d1)
  have d2: "dragons s2 = (dragons s1)[i := (dragons s1 ! i)\<lparr> data_health := 1,
              dragon_x := dragon_x (dragons s1 ! i) - 30 \<rparr>]"
    and sc2: "score s2 = score s1" and v2: "0 < player_velocity_y s2"
    using damageDragon_nonlethal [of s1 i r2] v1 i1 h1 by (simp_all add: s2_def)
  have i2: "i < length (dragons s2)" and h2: "data_health (dragons s2 ! i) = 1"
    using i1 by (simp_all add: d2)
  have d3: "dragons s3 = take i (dragons s2) @ drop (Suc i) (dragons s2)"
    and sc3: "score s3 = score s2 + 50"
    using damageDragon_lethal [of s2 i r3] v2 i2 h2 by (simp_all add: s3_def)
  have "take i (dragons s2) @ drop (Suc i) (dragons s2)
          = take i (dragons s) @ drop (Suc i) (dragons s)"
    by (simp add: d2 d1)
  then show ?thesis
    using d1 d2 d3 sc1 sc2 sc3 h1 h2 i by simp
qed

text \<open>
  Claim C3. For an overlap of the player with a live dragon (the \<open>i\<close>-th of the group, its
  stored health at least 1): unless the player's vertical velocity is downward (positive
  \<open>y\<close>) the state is unchanged. On a downward stomp with health above 1 the health drops by
  exactly 1, the dragon moves 30 to the left, the score is unchanged and one dust burst
  (six sprites at the dragon's old position) is added. On a downward stomp with health 1
  the dragon leaves the group, the others stay, and the score grows by exactly 50. A
  dragon of health 3 is still in the group after two stomps, with the score unchanged, and
  is gone after the third, with the score 50 higher.
\<close>

theorem damageDragon_stomp:
  assumes "i < length (dragons s)" and "1 \<le> data_health (dragons s ! i)"
  shows "(player_velocity_y s \<le> 0 \<longrightarrow> damageDragon rnd i s = s) \<and>
         (0 < player_velocity_y s \<and> 1 < data_health (dragons s ! i) \<longrightarrow>
            dragons (damageDragon rnd i s) =
              (dragons s)[i := (dragons s ! i)\<lparr> data_health := data_health (dragons s ! i) - 1,
                                                dragon_x := dragon_x (dragons s ! i) - 30 \<rparr>] \<and>
            score (damageDragon rnd i s) = score s \<and>
            particles (damageDragon rnd i s) =
              particles s @
              map (dust (dragon_x (dragons s ! i)) (dragon_y (dragons s ! i))) [0..<6]) \<and>
         (0 < player_velocity_y s \<and> data_health (dragons s ! i) = 1 \<longrightarrow>
            dragons (damageDragon rnd i s) = take i (dragons s) @ drop (Suc i) (dragons s) \<and>
            score (damageDragon rnd i s) = score s + 50) \<and>
         (0 < player_velocity_y s \<and> data_health (dragons s ! i) = 3 \<longrightarrow>
            length (dragons (damageDragon r2 i (damageDragon r1 i s))) = length (dragons s) \<and>
            score (damageDragon r2 i (damageDragon r1 i s)) = score s \<and>
            dragons (damageDragon r3 i (damageDragon r2 i (damageDragon r1 i s))) =
              take i (dragons s) @ drop (Suc i) (dragons s) \<and>
            score (damageDragon r3 i (damageDragon r2 i (damageDragon r1 i s))) = score s + 50)"
  using assms damageDragon_not_downward [of s rnd i] damageDragon_nonlethal [of s i rnd]
    damageDragon_lethal [of s i rnd] damageDragon_three_stomps [of s i r1 r2 r3]
  by simp

text \<open>
  The theorem at a concrete scene: one freshly spawned dragon (health 3) and a player
  falling at 100. Three stomps remove the dragon and add 50 to the score once.
\<close>

theorem damageDragon_stomp_witness:
  "0 < length (dragons stomp_scene) \<and> 1 \<le> data_health (dragons stomp_scene ! 0) \<and>
   length (dragons (damageDragon (\<lambda>k. 0) 0 (damageDragon (\<lambda>k. 0) 0 stomp_scene))) = 1 \<and>
   dragons (damageDragon (\<lambda>k. 0) 0 (damageDragon (\<lambda>k. 0) 0
      (damageDragon (\<lambda>k. 0) 0 stomp_scene))) = [] \<and>
   score (damageDragon (\<lambda>k. 0) 0 (damageDragon (\<lambda>k. 0) 0
      (damageDragon (\<lambda>k. 0) 0 stomp_scene))) = 50"
proof -
  have a: "0 < length (dragons stomp_scene)" and b: "1 \<le> data_health (dragons stomp_scene ! 0)"
    and c: "0 < player_velocity_y stomp_scene" and d: "data_health (dragons stomp_scene ! 0) = 3"
    and e: "score stomp_scene = 0" and f: "length (dragons stomp_scene) = 1"
    by (simp_all add: stomp_scene_def spawnDragon_def create_def RunnerScene_new_def)
  show ?thesis
    using damageDragon_stomp [OF a b, of "\<lambda>k. 0" "\<lambda>k. 0" "\<lambda>k. 0" "\<lambda>k. 0"] a b c d e f
    by simp
qed

subsection \<open>Game over and restart\<close>

lemma gameOver_fields:
  "gameActive (gameOver s) = False"
  "spawnTimer (gameOver s) = remove_timer (spawnTimer s)"
  "score (gameOver s) = score s"
  "level (gameOver s) = level s"
  "dragonSpawnTimer (gameOver s) = dragonSpawnTimer s"
  "restart_handlers (gameOver s) = restart_handlers s + 1"
  by (simp_all add: gameOver_def Let_def)

lemma remove_timer_dead:
  "remove_timer t = Some e \<Longrightarrow> \<not> timer_alive e"
  by (auto simp: remove_timer_def)

lemma update_iterated_active: "gameActive s \<Longrightarrow> gameActive ((update delta ^^ n) s)"
  by (induction n) (simp_all add: update_gameActive)

lemma update_dragonSpawnTimer:
  "gameActive s \<Longrightarrow>
   dragonSpawnTimer (update delta s) =
     (if \<lfloor>(score s + delta * 0.01) / 250\<rfloor> + 1 \<noteq> level s \<and>
         \<lfloor>(score s + delta * 0.01) / 250\<rfloor> + 1 = 2 \<and> dragonSpawnTimer s = None
      then Some \<lparr> timer_delay = 6000, timer_loop = True, timer_alive = True \<rparr>
      else dragonSpawnTimer s)"
  by (simp add: update_def Let_def level_up_def spawnDragon_def)

lemma update_iterated_timer_kept:
  "gameActive s \<Longrightarrow> dragonSpawnTimer s = Some t \<Longrightarrow>
   dragonSpawnTimer ((update delta ^^ n) s) = Some t"
  by (induction n) (simp_all add: update_dragonSpawnTimer update_iterated_active)

lemma update_iterated_level_1:
  assumes "gameActive s" "dragonSpawnTimer s = None" "level s = 1" "score s = 0" "n < 25"
  shows "dragonSpawnTimer ((update 1000 ^^ n) s) = None \<and> level ((update 1000 ^^ n) s) = 1"
  using assms
proof (induction n)
  case 0
  then show ?case by simp
next
  case (Suc n)
  then have ih: "dragonSpawnTimer ((update 1000 ^^ n) s) = None"
    "level ((update 1000 ^^ n) s) = 1"
    by simp_all
  have a: "gameActive ((update 1000 ^^ n) s)"
    using Suc.prems update_iterated_active by blast
  have sc: "score ((update 1000 ^^ n) s) = real n * 10"
    using Suc.prems by (simp add: update_iterated_score)
  have fl: "\<lfloor>(real n * 10 + 10) / 250\<rfloor> = 0"
    using Suc.prems(5) by (simp add: floor_eq_iff)
  show ?case
    using ih a sc fl by (simp add: update_dragonSpawnTimer update_level update_score)
qed

lemma key_R_gameOver_fields:
  "gameActive (key_R (gameOver s)) = False"
  "score (key_R (gameOver s)) = score s"
  "level (key_R (gameOver s)) = level s"
  "dragonSpawnTimer (key_R (gameOver s)) = remove_timer (dragonSpawnTimer s)"
  by (simp_all add: key_R_def scene_restart_def scene_shutdown_def create_def gameOver_def
      Let_def)

lemma create_new_fields:
  "gameActive (create (RunnerScene_new st))"
  "score (create (RunnerScene_new st)) = 0"
  "level (create (RunnerScene_new st)) = 1"
  "dragonSpawnTimer (create (RunnerScene_new st)) = None"
  by (simp_all add: create_def RunnerScene_new_def)

text \<open>
  Claim C7 (the restart part fails on the code). Game over does clear \<^verbatim>\<open>gameActive\<close> and
  removes the spawn timer (lemma \<open>gameOver_fields\<close>). The restart key then runs
  \<^verbatim>\<open>create()\<close> on the same scene object, and \<^verbatim>\<open>create()\<close> assigns none of the fields
  the class initialises: after the restart \<^verbatim>\<open>gameActive\<close> is still false, score and level
  are those of the lost game (300 and 2, not 0 and 1), the dragon spawn timer field still
  holds the removed timer, and \<^verbatim>\<open>update\<close> changes nothing.
\<close>

theorem restart_keeps_game_over_state:
  "gameActive restarted_game = False \<and> score restarted_game = 300 \<and>
   level restarted_game = 2 \<and>
   dragonSpawnTimer restarted_game =
     Some \<lparr> timer_delay = 6000, timer_loop = True, timer_alive = False \<rparr> \<and>
   update 1000 restarted_game = restarted_game"
proof -
  let ?s0 = "create (RunnerScene_new Map.empty)"
  let ?t = "\<lparr> timer_delay = 6000, timer_loop = True, timer_alive = True \<rparr>"
  have a: "gameActive ((update 1000 ^^ n) ?s0)" for n
    by (simp add: update_iterated_active create_new_fields)
  have sc: "score ((update 1000 ^^ 30) ?s0) = 300"
    by (simp add: update_iterated_score create_new_fields)
  have "(update 1000 ^^ 30) ?s0 = update 1000 ((update 1000 ^^ 29) ?s0)"
    by (simp add: eval_nat_numeral)
  then have lv: "level ((update 1000 ^^ 30) ?s0) = 2"
    using update_level [OF a [of 29], of 1000] sc by simp
  have t24: "dragonSpawnTimer ((update 1000 ^^ 24) ?s0) = None"
    "level ((update 1000 ^^ 24) ?s0) = 1"
    using update_iterated_level_1 [of ?s0 24] by (simp_all add: create_new_fields)
  have s24: "score ((update 1000 ^^ 24) ?s0) = 240"
    by (simp add: update_iterated_score create_new_fields)
  have "(update 1000 ^^ 25) ?s0 = update 1000 ((update 1000 ^^ 24) ?s0)"
    by (simp add: eval_nat_numeral)
  then have t25: "dragonSpawnTimer ((update 1000 ^^ 25) ?s0) = Some ?t"
    using update_dragonSpawnTimer [OF a [of 24], of 1000] t24 s24 by simp
  have "(update 1000 ^^ 30) ?s0 = (update 1000 ^^ 5) ((update 1000 ^^ 25) ?s0)"
    using funpow_add [of 5 25 "update 1000"] by simp
  then have t30: "dragonSpawnTimer ((update 1000 ^^ 30) ?s0) = Some ?t"
    using update_iterated_timer_kept [OF a [of 25] t25, where delta = 1000 and n = 5] by simp
  have "\<not> gameActive restarted_game"
    by (simp add: restarted_game_def key_R_gameOver_fields)
  then have "update 1000 restarted_game = restarted_game"
    by (rule update_inactive)
  then show ?thesis
    using sc lv t30 by (simp add: restarted_game_def key_R_gameOver_fields remove_timer_def)
qed

subsection \<open>The highscore\<close>

lemma read_highscore_missing: "read_highscore Map.empty = Num 0"
  by (simp add: read_highscore_def getItem_or_0_def parseInt_def is_digit_def digit_value_def
      is_white_def digits_value_def)

text \<open>
  Claim C8 (fails on the code for a corrupt entry). With the entry \<^verbatim>\<open>"abc"\<close> the highscore
  is read as \<^verbatim>\<open>NaN\<close>, not as zero, and a game over at score 10 leaves the entry as it
  is: \<^verbatim>\<open>10 > NaN\<close> is false, so the store does not end up holding the maximum. A missing
  entry is read as zero (lemma \<open>read_highscore_missing\<close>).
\<close>

theorem corrupt_highscore_is_NaN:
  "read_highscore corrupt_store = NaN \<and>
   highscore_shown (create (RunnerScene_new corrupt_store)) = NaN \<and>
   localStorage (gameOver ((create (RunnerScene_new corrupt_store))\<lparr> score := 10 \<rparr>))
     ''barrelJumpHighscore'' = Some ''abc''"
  by (simp add: read_highscore_def getItem_or_0_def corrupt_store_def parseInt_def is_digit_def
      digit_value_def is_white_def gameOver_def create_def RunnerScene_new_def Let_def)

subsection \<open>What the update loop and the highscore do keep\<close>

lemma level_up_dragons:
  "dragons (level_up lvl s) =
     (if lvl \<noteq> level s \<and> lvl = 2 \<and> dragonSpawnTimer s = None
      then dragons s @ [\<lparr> dragon_x = width + 150, dragon_y = height - 40 - 80,
                           data_health = 3, data_fireTimer = 0 \<rparr>]
      else dragons s)"
  by (simp add: level_up_def spawnDragon_def Let_def)

lemma update_dragons:
  "gameActive s \<Longrightarrow>
   dragons (update delta s) =
     move_dragons (level (update delta s)) delta
       (dragons (level_up (\<lfloor>(score s + delta * 0.01) / 250\<rfloor> + 1) (s\<lparr> score := score s + delta * 0.01 \<rparr>)))"
  by (simp add: update_def Let_def level_up_fields)

lemma move_obstacles_kept:
  assumes "list_all (\<lambda>ob. \<not> obstacle_x ob - (300 + (real_of_int lvl - 1) * 30) * (delta / 1000)
                            < - 100) obs"
  shows "move_obstacles lvl delta obs =
           map (\<lambda>ob. ob\<lparr> obstacle_x :=
                  obstacle_x ob - (300 + (real_of_int lvl - 1) * 30) * (delta / 1000) \<rparr>) obs"
proof -
  have k: "list_all (\<lambda>ob. move_obstacle lvl delta ob \<noteq> None) obs"
    using assms by (auto simp: list_all_iff move_obstacle_def Let_def)
  have "map (\<lambda>ob. the (move_obstacle lvl delta ob)) obs =
        map (\<lambda>ob. ob\<lparr> obstacle_x :=
                  obstacle_x ob - (300 + (real_of_int lvl - 1) * 30) * (delta / 1000) \<rparr>) obs"
    using k by (intro map_cong) (simp_all add: list_all_iff move_obstacle_kept(2))
  then show ?thesis
    by (simp add: move_obstacles_def children_iterate_kept [OF k])
qed

lemma move_obstacles_first:
  assumes "obstacle_x ob - (300 + (real_of_int lvl - 1) * 30) * (delta / 1000) < - 100"
    and "list_all (\<lambda>ob. \<not> obstacle_x ob - (300 + (real_of_int lvl - 1) * 30) * (delta / 1000)
                            < - 100) obs"
  shows "move_obstacles lvl delta (ob # nxt # obs) =
           nxt # map (\<lambda>ob. ob\<lparr> obstacle_x :=
                  obstacle_x ob - (300 + (real_of_int lvl - 1) * 30) * (delta / 1000) \<rparr>) obs"
proof -
  have n: "move_obstacle lvl delta ob = None"
    using assms(1) move_obstacle_kept(1) [of lvl delta ob] by simp
  have "move_obstacles lvl delta (ob # nxt # obs) = nxt # move_obstacles lvl delta obs"
    by (simp add: move_obstacles_def n)
  then show ?thesis
    by (simp add: move_obstacles_kept [OF assms(2)])
qed

lemma move_dragons_kept:
  assumes "list_all (\<lambda>d. \<not> dragon_x d - (250 + (real_of_int lvl - 1) * 20) * (delta / 1000)
                           < - 150) ds"
  shows "move_dragons lvl delta ds =
           map (\<lambda>d. d\<lparr> dragon_x :=
                  dragon_x d - (250 + (real_of_int lvl - 1) * 20) * (delta / 1000) \<rparr>) ds"
proof -
  have k: "list_all (\<lambda>d. move_dragon lvl delta d \<noteq> None) ds"
    using assms by (auto simp: list_all_iff move_dragon_def Let_def)
  have "map (\<lambda>d. the (move_dragon lvl delta d)) ds =
        map (\<lambda>d. d\<lparr> dragon_x :=
                  dragon_x d - (250 + (real_of_int lvl - 1) * 20) * (delta / 1000) \<rparr>) ds"
    using k by (intro map_cong) (simp_all add: list_all_iff move_dragon_kept(2))
  then show ?thesis
    by (simp add: move_dragons_def children_iterate_kept [OF k])
qed

text \<open>
  X1. The parts of the update loop that do what the specification says. While the game
  is over a tick changes nothing. While it is active, a tick of \<open>delta\<close> ms adds
  \<open>delta * 0.01\<close> to the score and sets the level to \<open>\<lfloor>score / 250\<rfloor> + 1\<close>. No loop adds a
  sprite. In a tick in which no obstacle passes \<open>x = -100\<close>, every obstacle moves left by
  \<open>(300 + (level - 1) * 30) * delta / 1000\<close>; in a tick in which only the first obstacle of
  the group passes it, that obstacle is removed, the one behind it stays where it is for
  this tick, and the others move. In a tick in which no dragon passes \<open>x = -150\<close>, every
  dragon (the one spawned in this tick included) moves left by
  \<open>(250 + (level - 1) * 20) * delta / 1000\<close>. From score 0, 24 ticks of 1000 ms give score
  240 at level 1 and the 25th gives score 250 at level 2.
\<close>

theorem runner_update_step:
  fixes s :: runner and delta :: real
  defines "vo \<equiv> (300 + (real_of_int (level (update delta s)) - 1) * 30) * (delta / 1000)"
    and "vd \<equiv> (250 + (real_of_int (level (update delta s)) - 1) * 20) * (delta / 1000)"
    and "ds \<equiv> (if level (update delta s) \<noteq> level s \<and> level (update delta s) = 2 \<and>
                  dragonSpawnTimer s = None
               then dragons s @ [\<lparr> dragon_x = width + 150, dragon_y = height - 40 - 80,
                                    data_health = 3, data_fireTimer = 0 \<rparr>]
               else dragons s)"
  shows
  "(\<not> gameActive s \<longrightarrow> update delta s = s) \<and>
   (gameActive s \<longrightarrow>
      score (update delta s) = score s + delta * 0.01 \<and>
      level (update delta s) = \<lfloor>score (update delta s) / 250\<rfloor> + 1 \<and>
      length (obstacles (update delta s)) \<le> length (obstacles s) \<and>
      length (dragons (update delta s)) \<le> length ds) \<and>
   (gameActive s \<and> list_all (\<lambda>ob. \<not> obstacle_x ob - vo < - 100) (obstacles s) \<longrightarrow>
      obstacles (update delta s) =
        map (\<lambda>ob. ob\<lparr> obstacle_x := obstacle_x ob - vo \<rparr>) (obstacles s)) \<and>
   (gameActive s \<and> obstacles s = ob # nxt # rest \<and> obstacle_x ob - vo < - 100 \<and>
    list_all (\<lambda>ob. \<not> obstacle_x ob - vo < - 100) rest \<longrightarrow>
      obstacles (update delta s) =
        nxt # map (\<lambda>ob. ob\<lparr> obstacle_x := obstacle_x ob - vo \<rparr>) rest) \<and>
   (gameActive s \<and> list_all (\<lambda>d. \<not> dragon_x d - vd < - 150) ds \<longrightarrow>
      dragons (update delta s) = map (\<lambda>d. d\<lparr> dragon_x := dragon_x d - vd \<rparr>) ds) \<and>
   (gameActive s \<and> score s = 0 \<longrightarrow>
      score ((update 1000 ^^ 24) s) = 240 \<and> level ((update 1000 ^^ 24) s) = 1 \<and>
      score ((update 1000 ^^ 25) s) = 250 \<and> level ((update 1000 ^^ 25) s) = 2)"
proof -
  have a: "\<not> gameActive s \<longrightarrow> update delta s = s"
    by (simp add: update_inactive)
  have dd: "gameActive s \<longrightarrow>
      dragons (update delta s) = move_dragons (level (update delta s)) delta ds"
  proof
    assume g: "gameActive s"
    have l: "level (update delta s) = \<lfloor>(score s + delta * 0.01) / 250\<rfloor> + 1"
      using g by (simp add: update_level update_score)
    show "dragons (update delta s) = move_dragons (level (update delta s)) delta ds"
      unfolding update_dragons [OF g] level_up_dragons ds_def
      by (simp add: l)
  qed
  have b: "gameActive s \<longrightarrow>
      score (update delta s) = score s + delta * 0.01 \<and>
      level (update delta s) = \<lfloor>score (update delta s) / 250\<rfloor> + 1 \<and>
      length (obstacles (update delta s)) \<le> length (obstacles s) \<and>
      length (dragons (update delta s)) \<le> length ds"
    using dd
    by (simp add: update_score update_level update_obstacles move_obstacles_def
        move_dragons_def length_children_iterate)
  have c: "gameActive s \<and> list_all (\<lambda>ob. \<not> obstacle_x ob - vo < - 100) (obstacles s) \<longrightarrow>
      obstacles (update delta s) =
        map (\<lambda>ob. ob\<lparr> obstacle_x := obstacle_x ob - vo \<rparr>) (obstacles s)"
    unfolding vo_def by (simp add: update_obstacles move_obstacles_kept)
  have c2: "gameActive s \<and> obstacles s = ob # nxt # rest \<and> obstacle_x ob - vo < - 100 \<and>
      list_all (\<lambda>ob. \<not> obstacle_x ob - vo < - 100) rest \<longrightarrow>
      obstacles (update delta s) =
        nxt # map (\<lambda>ob. ob\<lparr> obstacle_x := obstacle_x ob - vo \<rparr>) rest"
    unfolding vo_def by (simp add: update_obstacles move_obstacles_first)
  have d: "gameActive s \<and> list_all (\<lambda>d. \<not> dragon_x d - vd < - 150) ds \<longrightarrow>
      dragons (update delta s) = map (\<lambda>d. d\<lparr> dragon_x := dragon_x d - vd \<rparr>) ds"
    using dd unfolding vd_def by (simp add: move_dragons_kept)
  have e: "gameActive s \<and> score s = 0 \<longrightarrow>
      score ((update 1000 ^^ 24) s) = 240 \<and> level ((update 1000 ^^ 24) s) = 1 \<and>
      score ((update 1000 ^^ 25) s) = 250 \<and> level ((update 1000 ^^ 25) s) = 2"
    using update_25_ticks [of s] by blast
  show ?thesis using a b c c2 d e by blast
qed

text \<open>
  The theorem at a new scene with one barrel (a tick of 16 ms; 25 ticks of 1000 ms), at a
  scene whose first obstacle leaves the screen in the tick, and at a scene after game
  over.
\<close>

theorem runner_update_step_witness:
  "gameActive (spawnBarrel (create (RunnerScene_new Map.empty))) \<and>
   score (spawnBarrel (create (RunnerScene_new Map.empty))) = 0 \<and>
   score (update 16 (spawnBarrel (create (RunnerScene_new Map.empty)))) = 0.16 \<and>
   level (update 16 (spawnBarrel (create (RunnerScene_new Map.empty)))) = 1 \<and>
   map obstacle_x (obstacles (update 16 (spawnBarrel (create (RunnerScene_new Map.empty)))))
     = [980 - 4.8] \<and>
   dragons (update 16 (spawnBarrel (create (RunnerScene_new Map.empty)))) = [] \<and>
   score ((update 1000 ^^ 25) (spawnBarrel (create (RunnerScene_new Map.empty)))) = 250 \<and>
   level ((update 1000 ^^ 25) (spawnBarrel (create (RunnerScene_new Map.empty)))) = 2 \<and>
   gameActive leaving_scene \<and>
   map obstacle_x (obstacles leaving_scene) = [- 98, 300, 700] \<and>
   map obstacle_x (obstacles (update 16 leaving_scene)) = [300, 700 - 4.8] \<and>
   \<not> gameActive (gameOver (create (RunnerScene_new Map.empty))) \<and>
   update 16 (gameOver (create (RunnerScene_new Map.empty)))
     = gameOver (create (RunnerScene_new Map.empty))"
proof -
  let ?s = "spawnBarrel (create (RunnerScene_new Map.empty))"
  let ?g = "gameOver (create (RunnerScene_new Map.empty))"
  let ?b = "\<lambda>x. \<lparr> obstacle_x = x, obstacle_y = 438, obstacle_type = Barrel \<rparr>"
  have f: "gameActive ?s" "score ?s = 0" "level ?s = 1" "dragons ?s = []"
    "obstacles ?s = [\<lparr> obstacle_x = 980, obstacle_y = 438, obstacle_type = Barrel \<rparr>]"
    by (simp_all add: spawnBarrel_def create_def RunnerScene_new_def width_def height_def)
  have g: "\<not> gameActive ?g"
    by (simp add: gameOver_fields)
  have sc: "score (update 16 ?s) = 0.16"
    using runner_update_step [of ?s 16] f by simp
  have lv: "level (update 16 ?s) = 1"
    using runner_update_step [of ?s 16] f sc by simp
  have ob: "map obstacle_x (obstacles (update 16 ?s)) = [980 - 4.8]"
    using runner_update_step [of ?s 16] f by (simp add: lv)
  have dr: "dragons (update 16 ?s) = []"
    using runner_update_step [of ?s 16] f by (simp add: lv)
  have t: "score ((update 1000 ^^ 25) ?s) = 250 \<and> level ((update 1000 ^^ 25) ?s) = 2"
    using runner_update_step [of ?s 16] f by blast
  have u: "update 16 ?g = ?g"
    using runner_update_step [of ?g 16] g by blast
  have h: "gameActive leaving_scene" "score leaving_scene = 0" "level leaving_scene = 1"
    "obstacles leaving_scene = ?b (- 98) # ?b 300 # [?b 700]"
    by (simp_all add: leaving_scene_def create_def RunnerScene_new_def)
  have lsc: "score (update 16 leaving_scene) = 0.16"
    using runner_update_step [of leaving_scene 16] h by simp
  have llv: "level (update 16 leaving_scene) = 1"
    using runner_update_step [of leaving_scene 16] h lsc by simp
  have lob: "map obstacle_x (obstacles (update 16 leaving_scene)) = [300, 700 - 4.8]"
    using runner_update_step [of leaving_scene 16 "?b (- 98)" "?b 300" "[?b 700]"] h
    by (simp add: llv)
  have lo: "map obstacle_x (obstacles leaving_scene) = [- 98, 300, 700]"
    by (simp add: h)
  show ?thesis using f g sc lv ob dr t u h(1) lo lob by blast
qed

lemma digit_char_value: "k < 10 \<Longrightarrow> digit_value (''0123456789'' ! k) = Some k"
proof -
  assume "k < 10"
  then have "k \<in> {0, 1, 2, 3, 4, 5, 6, 7, 8, 9}" by auto
  then show ?thesis
    by (auto simp: digit_value_def)
qed

lemma digit_char_plain:
  "k < 10 \<Longrightarrow> \<not> is_white (''0123456789'' ! k) \<and> ''0123456789'' ! k \<noteq> CHR ''-'' \<and>
     ''0123456789'' ! k \<noteq> CHR ''+'' \<and> ''0123456789'' ! k \<noteq> CHR ''x'' \<and>
     ''0123456789'' ! k \<noteq> CHR ''X''"
proof -
  assume "k < 10"
  then have "k \<in> {0, 1, 2, 3, 4, 5, 6, 7, 8, 9}" by auto
  then show ?thesis
    by (auto simp: is_white_def)
qed

lemma decimal_digits: "list_all plain_digit (decimal n) \<and> decimal n \<noteq> []"
proof (induction n rule: decimal.induct)
  case (1 n)
  show ?case
  proof (cases "n < 10")
    case True
    then show ?thesis
      by (subst decimal.simps, subst decimal.simps) (auto simp: plain_digit_def)
  next
    case False
    have "n mod 10 < 10" by simp
    then have "plain_digit (''0123456789'' ! (n mod 10))"
      unfolding plain_digit_def by blast
    with False 1 show ?thesis
      by (subst decimal.simps, subst decimal.simps) simp
  qed
qed

lemma digits_value_snoc:
  "digits_value R (Z @ [c]) = digits_value R Z * R + (case digit_value c of None \<Rightarrow> 0 | Some v \<Rightarrow> v)"
  by (simp add: digits_value_def)

lemma digits_value_decimal: "digits_value 10 (decimal n) = n"
proof (induction n rule: decimal.induct)
  case (1 n)
  show ?case
  proof (cases "n < 10")
    case True
    then show ?thesis
      by (subst decimal.simps) (simp add: digits_value_def digit_char_value)
  next
    case False
    have "n mod 10 < 10" by simp
    then have d: "digit_value (''0123456789'' ! (n mod 10)) = Some (n mod 10)"
      by (rule digit_char_value)
    from False 1 have ih: "digits_value 10 (decimal (n div 10)) = n div 10" by simp
    have "decimal n = decimal (n div 10) @ [''0123456789'' ! (n mod 10)]"
      using False by (subst decimal.simps) simp
    then show ?thesis
      by (simp only: digits_value_snoc ih d) simp
  qed
qed

lemma parseInt_decimal: "parseInt (decimal n) = Num (real n)"
proof -
  obtain c cs where dc: "decimal n = c # cs"
    using decimal_digits [of n] by (cases "decimal n") auto
  have all: "list_all plain_digit (c # cs)"
    using decimal_digits [of n] dc by simp
  have plain: "\<And>x. plain_digit x \<Longrightarrow> \<not> is_white x \<and> x \<noteq> CHR ''-'' \<and> x \<noteq> CHR ''+'' \<and>
      x \<noteq> CHR ''x'' \<and> x \<noteq> CHR ''X'' \<and> is_digit 10 x"
    using digit_char_plain digit_char_value
    by (auto simp: plain_digit_def is_digit_def)
  have c: "\<not> is_white c" "c \<noteq> CHR ''-''" "c \<noteq> CHR ''+''"
    using plain [of c] all by simp_all
  have nox: "take 2 (c # cs) \<noteq> ''0x''" "take 2 (c # cs) \<noteq> ''0X''"
    using all plain by (cases cs; auto)+
  have tw: "takeWhile (is_digit 10) (c # cs) = c # cs"
    using all plain by (simp add: takeWhile_eq_all_conv list_all_iff)
  have t1: "take 1 (c # cs) \<noteq> ''-''" "take 1 (c # cs) \<noteq> ''+''"
    using c by simp_all
  have dw: "dropWhile is_white (c # cs) = c # cs"
    using c by simp
  have dv: "digits_value 10 (c # cs) = n"
    using digits_value_decimal [of n] dc by simp
  have tw': "is_digit 10 c" "takeWhile (is_digit 10) cs = cs"
    using tw by (auto split: if_splits)
  show ?thesis
    using c nox tw'(1) dv
    by (auto simp add: parseInt_def dc Let_def tw'(2))
qed


lemma getItem_decimal: "getItem_or_0 [k \<mapsto> decimal h] k = decimal h"
  using decimal_digits [of h] by (simp add: getItem_or_0_def)

lemma String_of_nonneg: "0 \<le> n \<Longrightarrow> String_of n = decimal (nat n)"
  by (simp add: String_of_def)

text \<open>
  X2. The highscore with a well-formed store, for numbers up to \<open>2\<^sup>5\<^sup>3\<close> (which a double
  holds exactly and \<^verbatim>\<open>String\<close> writes with all digits). If the entry is missing, or is the
  decimal numeral of a number \<open>h\<close>, then after game over at a score that is not negative
  the entry reads as the maximum of the floored score and the previous highscore (0 when
  missing).
\<close>

theorem gameOver_keeps_maximum:
  assumes "0 \<le> score s" and "score s < 2 ^ 53"
  shows "(localStorage s ''barrelJumpHighscore'' = None \<longrightarrow>
            read_highscore (localStorage (gameOver s)) = Num (real_of_int \<lfloor>score s\<rfloor>)) \<and>
         (localStorage s ''barrelJumpHighscore'' = Some (decimal h) \<and> h \<le> 2 ^ 53 \<longrightarrow>
            read_highscore (localStorage (gameOver s))
              = Num (max (real_of_int \<lfloor>score s\<rfloor>) (real h)))"
proof -
  let ?k = "''barrelJumpHighscore''"
  let ?c = "\<lfloor>score s\<rfloor>"
  have c0: "0 \<le> ?c" using assms(1) by simp
  have str: "String_of ?c = decimal (nat ?c)"
    using c0 by (rule String_of_nonneg)
  have rc: "real (nat ?c) = real_of_int ?c"
    using c0 by simp
  have pd: "parseInt (decimal (nat ?c)) = Num (real_of_int ?c)"
    by (simp add: parseInt_decimal rc)
  have ne: "decimal (nat ?c) \<noteq> []" "decimal h \<noteq> []"
    using decimal_digits by simp_all
  have zero: "parseInt ''0'' = Num 0"
    by (simp add: parseInt_def is_digit_def digit_value_def is_white_def digits_value_def)
  have a: "localStorage s ?k = None \<longrightarrow>
            read_highscore (localStorage (gameOver s)) = Num (real_of_int ?c)"
  proof
    assume n: "localStorage s ?k = None"
    show "read_highscore (localStorage (gameOver s)) = Num (real_of_int ?c)"
    proof (cases "0 < ?c")
      case True
      then show ?thesis
        using n ne by (simp add: gameOver_def read_highscore_def getItem_or_0_def Let_def zero
            str pd)
    next
      case False
      with c0 have "?c = 0" by linarith
      then show ?thesis
        using n by (simp add: gameOver_def read_highscore_def getItem_or_0_def Let_def zero)
    qed
  qed
  have b: "localStorage s ?k = Some (decimal h) \<and> h \<le> 2 ^ 53 \<longrightarrow>
            read_highscore (localStorage (gameOver s))
              = Num (max (real_of_int ?c) (real h))"
  proof
    assume "localStorage s ?k = Some (decimal h) \<and> h \<le> 2 ^ 53"
    then have n: "localStorage s ?k = Some (decimal h)" by simp
    show "read_highscore (localStorage (gameOver s)) = Num (max (real_of_int ?c) (real h))"
    proof (cases "real h < real_of_int ?c")
      case True
      then show ?thesis
        using n ne by (simp add: gameOver_def read_highscore_def getItem_or_0_def Let_def
            str pd parseInt_decimal)
    next
      case False
      then show ?thesis
        using n ne by (simp add: gameOver_def read_highscore_def getItem_or_0_def Let_def
            parseInt_decimal max_def)
    qed
  qed
  show ?thesis using a b by blast
qed

text \<open>
  The theorem at a stored highscore of 7 and a score of 12.5 (the entry then reads 12) and
  at an empty store and score 0.
\<close>

theorem gameOver_keeps_maximum_witness:
  "0 \<le> score stored_7 \<and> score stored_7 < 2 ^ 53 \<and>
   localStorage stored_7 ''barrelJumpHighscore'' = Some (decimal 7) \<and> (7::nat) \<le> 2 ^ 53 \<and>
   read_highscore (localStorage (gameOver stored_7)) = Num 12 \<and>
   0 \<le> score (create (RunnerScene_new Map.empty)) \<and>
   score (create (RunnerScene_new Map.empty)) < 2 ^ 53 \<and>
   localStorage (create (RunnerScene_new Map.empty)) ''barrelJumpHighscore'' = None \<and>
   read_highscore (localStorage (gameOver (create (RunnerScene_new Map.empty)))) = Num 0"
proof -
  have d7: "decimal 7 = ''7''"
    by (simp add: decimal.simps)
  have s: "0 \<le> score stored_7" "localStorage stored_7 ''barrelJumpHighscore'' = Some (decimal 7)"
    "\<lfloor>score stored_7\<rfloor> = 12" "score stored_7 < 2 ^ 53"
    by (simp_all add: stored_7_def create_def RunnerScene_new_def d7 floor_eq_iff)
  have e: "0 \<le> score (create (RunnerScene_new Map.empty))"
    "localStorage (create (RunnerScene_new Map.empty)) ''barrelJumpHighscore'' = None"
    "\<lfloor>score (create (RunnerScene_new Map.empty))\<rfloor> = 0"
    "score (create (RunnerScene_new Map.empty)) < 2 ^ 53"
    by (simp_all add: create_def RunnerScene_new_def)
  have seven: "(7::nat) \<le> 2 ^ 53" by simp
  have a: "read_highscore (localStorage (gameOver stored_7)) = Num 12"
    using gameOver_keeps_maximum [OF s(1) s(4), of 7] s(2,3) seven by simp
  have b: "read_highscore (localStorage (gameOver (create (RunnerScene_new Map.empty)))) = Num 0"
    using gameOver_keeps_maximum [OF e(1) e(4), of 0] e(2,3) by simp
  show ?thesis using s(1,2,4) e(1,2,4) a b seven by blast
qed

subsection \<open>Invariants over sequences of events\<close>

lemma move_dragons_health:
  "list_all (\<lambda>d. P (data_health d)) ds \<Longrightarrow> list_all (\<lambda>d. P (data_health d)) (move_dragons lvl delta ds)"
  unfolding move_dragons_def
  by (rule children_iterate_list_all) (auto simp: move_dragon_def Let_def split: if_splits)

lemma health_ok_update: "health_ok s \<Longrightarrow> health_ok (update delta s)"
  unfolding health_ok_def
  by (auto simp: update_def Let_def level_up_def spawnDragon_def intro!: move_dragons_health)

lemma list_all_take_drop:
  "list_all P xs \<Longrightarrow> list_all P (take i xs @ drop (Suc i) xs)"
  by (auto simp: list_all_iff dest: in_set_takeD in_set_dropD)

lemma list_all_update: "list_all P xs \<Longrightarrow> P y \<Longrightarrow> list_all P (xs[i := y])"
  by (auto simp: list_all_iff dest: set_update_subset_insert [THEN subsetD])

lemma fold_dust_dragons:
  "dragons (fold (\<lambda>k. createDustParticles (f k) y) ks s) = dragons s"
  by (induction ks arbitrary: s) simp_all

lemma health_ok_damage: "health_ok s \<Longrightarrow> health_ok (damageDragon rnd i s)"
proof (cases "player_velocity_y s \<le> 0 \<or> i \<ge> length (dragons s)")
  case True
  then show "health_ok s \<Longrightarrow> ?thesis" by (auto simp: damageDragon_def)
next
  case False
  assume ok: "health_ok s"
  from False have i: "i < length (dragons s)" and v: "0 < player_velocity_y s" by auto
  from ok i have h: "data_health (dragons s ! i) = 1 \<or> data_health (dragons s ! i) = 2 \<or>
      data_health (dragons s ! i) = 3"
    by (simp add: health_ok_def list_all_length)
  show ?thesis
  proof (cases "data_health (dragons s ! i) = 1")
    case True
    have "list_all (\<lambda>d. data_health d = 1 \<or> data_health d = 2 \<or> data_health d = 3)
        (take i (dragons s) @ drop (Suc i) (dragons s))"
      using ok unfolding health_ok_def by (rule list_all_take_drop)
    then show ?thesis
      unfolding health_ok_def by (simp only: damageDragon_lethal(1) [OF v i True])
  next
    case False
    with h have gt: "1 < data_health (dragons s ! i)" by auto
    from h False have "data_health (dragons s ! i) - 1 = 1 \<or> data_health (dragons s ! i) - 1 = 2"
      by auto
    then have "list_all (\<lambda>d. data_health d = 1 \<or> data_health d = 2 \<or> data_health d = 3)
        ((dragons s)[i := (dragons s ! i)\<lparr> data_health := data_health (dragons s ! i) - 1,
                                          dragon_x := dragon_x (dragons s ! i) - 30 \<rparr>])"
      using ok unfolding health_ok_def by (intro list_all_update) auto
    then show ?thesis
      unfolding health_ok_def by (simp only: damageDragon_nonlethal(1) [OF v i gt])
  qed
qed

lemma health_ok_step: "health_ok s \<Longrightarrow> health_ok (runner_step ev s)"
proof (cases ev)
  case (Update delta)
  then show "health_ok s \<Longrightarrow> ?thesis" by (simp add: health_ok_update)
next
  case (OverlapDragon rnd i)
  then show "health_ok s \<Longrightarrow> ?thesis" by (simp add: health_ok_damage)
qed (auto simp: health_ok_def spawnObstacle_def spawnBarrel_def spawnBox_def spawnDragon_def
      spawnFire_def gameOver_def Let_def key_R_def scene_restart_def scene_shutdown_def
      create_def jump_def)

lemma health_ok_run: "health_ok s \<Longrightarrow> health_ok (runner_run evs s)"
  unfolding runner_run_def by (induction evs arbitrary: s) (simp_all add: health_ok_step)

text \<open>
  X5 (spec, runner core: a dragon "starts at 3" hits). In every state a scene reaches
  from \<^verbatim>\<open>create()\<close>, by any sequence of events, every dragon of the group has 1, 2 or 3
  hits left: a dragon is spawned with 3, a stomp takes one, and the stomp that would
  leave 0 destroys the dragon.
\<close>

theorem dragon_health_in_range:
  "list_all (\<lambda>d. data_health d = 1 \<or> data_health d = 2 \<or> data_health d = 3)
     (dragons (runner_run evs (create (RunnerScene_new store))))"
proof -
  have "health_ok (create (RunnerScene_new store))"
    by (simp add: health_ok_def create_def RunnerScene_new_def)
  then have "health_ok (runner_run evs (create (RunnerScene_new store)))"
    by (rule health_ok_run)
  then show ?thesis by (simp add: health_ok_def)
qed


lemma fold_dust_score:
  "score (fold (\<lambda>k. createDustParticles (f k) y) ks s) = score s"
  by (induction ks arbitrary: s) simp_all

lemma score_update: "0 \<le> delta \<Longrightarrow> score s \<le> score (update delta s)"
  by (simp add: update_def Let_def level_up_def spawnDragon_def)

lemma score_damageDragon: "score s \<le> score (damageDragon rnd i s)"
  by (simp add: damageDragon_def Let_def fold_dust_score)

lemma score_gameOver: "score (gameOver s) = score s"
  by (simp add: gameOver_def Let_def)

lemma score_key_R: "score (key_R s) = score s"
  by (simp add: key_R_def scene_restart_def scene_shutdown_def create_def)

lemma score_step: "nonneg_delta ev \<Longrightarrow> score s \<le> score (runner_step ev s)"
proof (cases ev)
  case (Update delta)
  then show "nonneg_delta ev \<Longrightarrow> ?thesis" by (simp add: nonneg_delta_def score_update)
next
  case (OverlapDragon rnd i)
  then show ?thesis by (simp add: score_damageDragon)
qed (simp_all add: score_gameOver score_key_R spawnObstacle_def spawnBarrel_def spawnBox_def
       spawnDragon_def spawnFire_def jump_def)

lemma score_run: "list_all nonneg_delta evs \<Longrightarrow> score s \<le> score (runner_run evs s)"
  unfolding runner_run_def
proof (induction evs arbitrary: s)
  case Nil
  show ?case by simp
next
  case (Cons ev evs)
  from Cons.prems have a: "nonneg_delta ev" and b: "list_all nonneg_delta evs" by simp_all
  have "score s \<le> score (runner_step ev s)" using a by (rule score_step)
  also have "\<dots> \<le> score (fold runner_step evs (runner_step ev s))" using b by (rule Cons.IH)
  finally show ?case by simp
qed

lemma game_over_inv_gameOver: "game_over_inv (gameOver s)"
  by (simp add: game_over_inv_def gameOver_def Let_def)

lemma timer_live_remove: "\<not> timer_live (remove_timer t)"
  by (cases t) (simp_all add: timer_live_def remove_timer_def)

lemma game_over_inv_key_R: "game_over_inv s \<Longrightarrow> game_over_inv (key_R s)"
  by (simp add: game_over_inv_def key_R_def scene_restart_def scene_shutdown_def create_def
      timer_live_remove)

lemma game_over_inv_step:
  "game_over_inv s \<Longrightarrow> game_over_inv (runner_step ev s) \<and> score (runner_step ev s) = score s"
proof (cases ev)
  case KeyR
  then show "game_over_inv s \<Longrightarrow> ?thesis" by (simp add: game_over_inv_key_R score_key_R)
next
  case (Update delta)
  then show "game_over_inv s \<Longrightarrow> ?thesis" by (simp add: game_over_inv_def update_def)
next
  case (OverlapDragon rnd i)
  then show "game_over_inv s \<Longrightarrow> ?thesis" by (auto simp: game_over_inv_def damageDragon_def)
next
  case OverlapObstacle
  then show "game_over_inv s \<Longrightarrow> ?thesis" by (simp add: game_over_inv_gameOver score_gameOver)
next
  case OverlapFire
  then show "game_over_inv s \<Longrightarrow> ?thesis" by (simp add: game_over_inv_gameOver score_gameOver)
next
  case DragonTimerFires
  then show "game_over_inv s \<Longrightarrow> ?thesis" by (auto simp: game_over_inv_def spawnDragon_def)
qed (auto simp: game_over_inv_def spawnObstacle_def spawnBarrel_def spawnBox_def
       spawnFire_def jump_def)

lemma game_over_inv_run:
  "game_over_inv s \<Longrightarrow> score (runner_run evs s) = score s"
  unfolding runner_run_def
proof (induction evs arbitrary: s)
  case Nil
  show ?case by simp
next
  case (Cons ev evs)
  from game_over_inv_step [OF Cons.prems, of ev]
  have a: "game_over_inv (runner_step ev s)" and b: "score (runner_step ev s) = score s"
    by simp_all
  from Cons.IH [OF a] b show ?case by simp
qed

text \<open>
  X6 (spec, testable properties: "for all \<open>\<Delta> \<ge> 0\<close> sequences, score is monotonically
  non-decreasing while \<^verbatim>\<open>gameActive\<close>, and frozen thereafter"), runner core. Over any
  sequence of events whose frames have a non-negative \<open>delta\<close> the score does not
  decrease; and after \<^verbatim>\<open>gameOver()\<close> no sequence of events changes it, restarts included.
\<close>

theorem runner_score_monotone_then_frozen:
  "(list_all nonneg_delta evs \<longrightarrow> score s \<le> score (runner_run evs s)) \<and>
   score (runner_run evs (gameOver s)) = score s"
proof
  show "list_all nonneg_delta evs \<longrightarrow> score s \<le> score (runner_run evs s)"
    by (simp add: score_run)
  have "score (runner_run evs (gameOver s)) = score (gameOver s)"
    using game_over_inv_gameOver by (rule game_over_inv_run)
  then show "score (runner_run evs (gameOver s)) = score s" by (simp add: score_gameOver)
qed

theorem runner_score_monotone_then_frozen_witness:
  "list_all nonneg_delta played_events \<and>
   score (runner_run played_events played_game) = 32 / 100 \<and>
   score played_game \<le> score (runner_run played_events played_game) \<and>
   score (runner_run [Update 16, KeyR, Update 16] (gameOver played_game)) = 0"
proof -
  have a: "list_all nonneg_delta played_events"
    by (simp add: played_events_def nonneg_delta_def)
  have b: "score played_game = 0"
    by (simp add: played_game_def create_def RunnerScene_new_def)
  have g: "gameActive played_game" "level played_game = 1"
    by (simp_all add: played_game_def create_def RunnerScene_new_def)
  have c: "score (runner_run played_events played_game) = 32 / 100"
    using b g
    by (simp add: played_events_def runner_run_def update_def Let_def level_up_def jump_def
        createDustParticles_def)
  have d: "score played_game \<le> score (runner_run played_events played_game)"
    using runner_score_monotone_then_frozen [of played_events played_game] a by simp
  have e: "score (runner_run [Update 16, KeyR, Update 16] (gameOver played_game)) = 0"
    using runner_score_monotone_then_frozen [of "[Update 16, KeyR, Update 16]" played_game] b
    by simp
  from a c d e show ?thesis by simp
qed

section \<open>Properties of the driving core\<close>

subsection \<open>The light cycle\<close>

lemma mod_Suc_12500:
  "Suc n mod 12500 = (if n mod 12500 = 12499 then 0 else Suc (n mod 12500))"
  by (simp add: mod_Suc)

lemma cycle_tick_inv:
  "light_inv n (light_part s) \<Longrightarrow> light_inv (Suc n) (light_part (cycle_tick s))"
  unfolding light_inv_def light_part_def Let_def mod_Suc_12500
  by (auto simp: cycle_tick_def cycle_resume_def setLight_def split: if_splits)

lemma light_part_simps [simp]:
  "light_part (s\<lparr> clock := c \<rparr>) = light_part s"
  "light_part (poll_tick s) = light_part s"
  "light_part (setStatus v s) = light_part s"
  "light_part (onCrossStopLine s) = light_part s"
  "light_part (keydown k s) = light_part s"
  "light_part (keyup k s) = light_part s"
  by (simp_all add: light_part_def poll_tick_def setStatus_def onCrossStopLine_def keydown_def keyup_def Let_def)

lemma light_part_reset_tick:
  "(\<And>x. light_part (reset x) = light_part x) \<Longrightarrow> light_part (reset_tick reset s) = light_part s"
  by (simp add: reset_tick_def light_part_def split: option.splits)

lemma light_part_ms_tick:
  "(\<And>x. light_part (reset x) = light_part x) \<Longrightarrow> light_part (ms_tick reset s) = light_part (cycle_tick (s\<lparr> clock := clock s + 1\<rparr>))"
  by (simp add: ms_tick_def light_part_reset_tick)

lemma cycle_tick_clock: "light_part (cycle_tick (s\<lparr> clock := c \<rparr>)) = light_part (cycle_tick s)"
  by (simp add: cycle_tick_def cycle_resume_def setLight_def light_part_def split: cycle_pc.splits)

lemma light_part_k_reset [simp]: "light_part (k_reset s) = light_part s"
  by (simp add: k_reset_def Let_def light_part_def setStatus_def split: option.splits)

lemma light_part_k_frame [simp]: "light_part (k_frame d s) = light_part s"
  by (simp add: k_frame_def Let_def k_onBarrierHit_def light_part_def setStatus_def onCrossStopLine_def split: prod.splits)

lemma k_step_light:
  "ev \<noteq> KUnmount \<Longrightarrow> light_inv n (light_part s) \<Longrightarrow>
   light_inv (n + (if ev = KMs then 1 else 0)) (light_part (k_step ev s))"
  using cycle_tick_inv [of n s]
  by (cases ev) (simp_all add: light_part_ms_tick cycle_tick_clock)

lemma k_run_light:
  "KUnmount \<notin> set evs \<Longrightarrow> light_inv n (light_part s) \<Longrightarrow>
   light_inv (n + count_list evs KMs) (light_part (k_run evs s))"
proof (induction evs arbitrary: n s)
  case Nil
  then show ?case by (simp add: k_run_def)
next
  case (Cons ev evs)
  have a: "ev \<noteq> KUnmount" and b: "KUnmount \<notin> set evs"
    using Cons.prems(1) by auto
  have "light_inv (n + (if ev = KMs then 1 else 0)) (light_part (k_step ev s))"
    by (rule k_step_light [OF a Cons.prems(2)])
  from Cons.IH [OF b this] show ?case
    by (cases "ev = KMs") (simp_all add: k_run_def)
qed

lemma light_inv_phase: "light_inv n (light_part s) \<Longrightarrow> lightState s = spec_light_phase n \<and> cycle_pc s \<noteq> Exited"
  by (auto simp: light_inv_def light_part_def spec_light_phase_def Let_def split: if_splits)

lemma k_mount_inv: "light_inv 0 (light_part (k_mount t0))"
  by (simp add: light_inv_def light_part_def k_mount_def)


lemma position_effect_fields [simp]:
  "status (position_effect r) = status r"
  "crossed (position_effect r) = crossed r"
  "traffic_score (position_effect r) = traffic_score r"
  "reset_wait (position_effect r) = reset_wait r"
  "paused (position_effect r) = paused r"
  "lightState (position_effect r) = lightState r"
  "translation (car_body (position_effect r)) = \<lparr> vec_x = 0, vec_y = 0.4, vec_z = 18 \<rparr>"
  "linvel (car_body (position_effect r)) = linvel (car_body r)"
  "angvel (car_body (position_effect r)) = angvel (car_body r)"
  "rotation (car_body (position_effect r)) = rotation (car_body r)"
  by (simp_all add: position_effect_def)

lemma render_fields [simp]:
  "status (render r r') = status r'"
  "crossed (render r r') = crossed r'"
  "traffic_score (render r r') = traffic_score r'"
  "reset_wait (render r r') = reset_wait r'"
  "paused (render r r') = paused r'"
  "lightState (render r r') = lightState r'"
  "linvel (car_body (render r r')) = linvel (car_body r')"
  "angvel (car_body (render r r')) = angvel (car_body r')"
  "rotation (car_body (render r r')) = rotation (car_body r')"
  by (simp_all add: render_def)

lemma light_part_rigid [simp]:
  "light_part (r_reset r) = light_part r"
  "light_part (r_frame r) = light_part r"
  "light_part (r_onBarrierHit r) = light_part r"
  "light_part (pause_effect r) = light_part r"
  "light_part (prune_tick r) = light_part r"
  "light_part (r\<lparr> car_body := b, forces := fs, torques := ts \<rparr>) = light_part r"
  "light_part (position_effect r) = light_part r"
  "light_part (render r0 r) = light_part r"
  by (simp_all add: r_reset_def r_frame_def r_onBarrierHit_def pause_effect_def prune_tick_def
      position_effect_def render_def
      Let_def light_part_def setStatus_def onCrossStopLine_def split: option.splits prod.splits)

lemma r_step_light:
  "ev \<noteq> RUnmount \<Longrightarrow> light_inv n (light_part s) \<Longrightarrow>
   light_inv (n + (if ev = RMs then 1 else 0)) (light_part (r_step ev s))"
  using cycle_tick_inv [of n s]
  by (cases ev) (simp_all add: light_part_ms_tick cycle_tick_clock r_keydown_def Let_def)

lemma r_run_light:
  "RUnmount \<notin> set evs \<Longrightarrow> light_inv n (light_part s) \<Longrightarrow>
   light_inv (n + count_list evs RMs) (light_part (r_run evs s))"
proof (induction evs arbitrary: n s)
  case Nil
  then show ?case by (simp add: r_run_def)
next
  case (Cons ev evs)
  have a: "ev \<noteq> RUnmount" and b: "RUnmount \<notin> set evs"
    using Cons.prems(1) by auto
  have "light_inv (n + (if ev = RMs then 1 else 0)) (light_part (r_step ev s))"
    by (rule r_step_light [OF a Cons.prems(2)])
  from Cons.IH [OF b this] show ?case
    by (cases "ev = RMs") (simp_all add: r_run_def)
qed

lemma r_mount_inv: "light_inv 0 (light_part (r_mount t0))"
  by (simp add: light_inv_def light_part_def r_mount_def)

lemma light_inv_unique: "light_inv n p \<Longrightarrow> light_inv n q \<Longrightarrow> p = q"
  by (auto simp: light_inv_def Let_def split: if_splits)

lemma count_list_filter_other: "x \<noteq> y \<Longrightarrow> count_list (filter (\<lambda>e. e \<noteq> y) evs) x = count_list evs x"
  by (induction evs) auto

text \<open>
  Claim C4. In both games, as long as the component is mounted, the light after any
  sequence of events (frames, key presses including the pause key, resets, collisions,
  milliseconds) is the phase the specification gives for the number of milliseconds
  elapsed: green for 6000 ms, yellow for 1500 ms, red for 5000 ms, cyclically; the cycle
  never leaves its loop. Removing every press of the pause key from the sequence changes
  neither the light nor the time left to the next phase.
\<close>

theorem light_cycle_sequence:
  assumes "KUnmount \<notin> set kevs" and "RUnmount \<notin> set revs"
  shows "lightState (k_run kevs (k_mount t0)) = spec_light_phase (count_list kevs KMs) \<and>
         cycle_pc (k_run kevs (k_mount t0)) \<noteq> Exited \<and>
         lightState (k_run (filter (\<lambda>e. e \<noteq> KKeyDown KeyP) kevs) (k_mount t0))
           = lightState (k_run kevs (k_mount t0)) \<and>
         cycle_wait (k_run (filter (\<lambda>e. e \<noteq> KKeyDown KeyP) kevs) (k_mount t0))
           = cycle_wait (k_run kevs (k_mount t0)) \<and>
         lightState (r_run revs (r_mount t0)) = spec_light_phase (count_list revs RMs) \<and>
         cycle_pc (r_run revs (r_mount t0)) \<noteq> Exited \<and>
         lightState (r_run (filter (\<lambda>e. e \<noteq> RKeyDown KeyP) revs) (r_mount t0))
           = lightState (r_run revs (r_mount t0)) \<and>
         cycle_wait (r_run (filter (\<lambda>e. e \<noteq> RKeyDown KeyP) revs) (r_mount t0))
           = cycle_wait (r_run revs (r_mount t0))"
proof -
  let ?kf = "filter (\<lambda>e. e \<noteq> KKeyDown KeyP) kevs"
  let ?rf = "filter (\<lambda>e. e \<noteq> RKeyDown KeyP) revs"
  have k: "light_inv (count_list kevs KMs) (light_part (k_run kevs (k_mount t0)))"
    using k_run_light [OF assms(1) k_mount_inv] by simp
  have "KUnmount \<notin> set ?kf" using assms(1) by simp
  from k_run_light [OF this k_mount_inv]
  have "light_inv (count_list kevs KMs) (light_part (k_run ?kf (k_mount t0)))"
    by (simp add: count_list_filter_other)
  with k have keq: "light_part (k_run ?kf (k_mount t0)) = light_part (k_run kevs (k_mount t0))"
    using light_inv_unique by blast
  have r: "light_inv (count_list revs RMs) (light_part (r_run revs (r_mount t0)))"
    using r_run_light [OF assms(2) r_mount_inv] by simp
  have "RUnmount \<notin> set ?rf" using assms(2) by simp
  from r_run_light [OF this r_mount_inv]
  have "light_inv (count_list revs RMs) (light_part (r_run ?rf (r_mount t0)))"
    by (simp add: count_list_filter_other)
  with r have req: "light_part (r_run ?rf (r_mount t0)) = light_part (r_run revs (r_mount t0))"
    using light_inv_unique by blast
  show ?thesis
    using light_inv_phase [OF k] light_inv_phase [OF r] keq req
    by (simp add: light_part_def)
qed

lemma count_list_replicate_same: "count_list (replicate n x) x = n"
  by (induction n) auto

text \<open>
  The theorem at 6000 ms, a pause, 1500 ms (red) and at 12500 ms, a pause, a collision
  (green again).
\<close>

theorem light_cycle_sequence_witness:
  "KUnmount \<notin> set (replicate 6000 KMs @ [KKeyDown KeyP] @ replicate 1500 KMs) \<and>
   RUnmount \<notin> set (replicate 12500 RMs @ [RKeyDown KeyP, BarrierContact]) \<and>
   lightState (k_run (replicate 6000 KMs @ [KKeyDown KeyP] @ replicate 1500 KMs) (k_mount 0)) = Red \<and>
   lightState (r_run (replicate 12500 RMs @ [RKeyDown KeyP, BarrierContact]) (r_mount 0)) = Green"
  using light_cycle_sequence [of "replicate 6000 KMs @ [KKeyDown KeyP] @ replicate 1500 KMs"
      "replicate 12500 RMs @ [RKeyDown KeyP, BarrierContact]" 0]
  by (simp add: count_list_replicate_same spec_light_phase_def)

subsection \<open>Frames and the round status\<close>

lemma sqrt_gt_numeral: "0 \<le> c \<Longrightarrow> (c < sqrt x) = (c * c < x)"
  using real_sqrt_less_iff [of "c * c" x] by simp

lemma sqrt_gt_14 : "(14 < sqrt x) = (196 < x)"
  using sqrt_gt_numeral [of 14 x] by simp

lemma sqrt_gt_fifth : "(1 / 5 < sqrt x) = (1 / 25 < x)"
  using sqrt_gt_numeral [of "1/5" x] by simp

lemma k_frame_paused: "paused s \<Longrightarrow> k_frame delta s = s"
  by (simp add: k_frame_def)

lemma k_frame_barrier:
  "\<not> paused s \<Longrightarrow> \<bar>position_x s + fst (capped_velocity delta s) * capped_delta delta\<bar> > 4.5 \<Longrightarrow>
   k_frame delta s = (k_onBarrierHit s)\<lparr> vx := 0, vz := 0, angle := steered_angle delta s \<rparr>"
  by (simp add: k_frame_def Let_def case_prod_beta)

lemma k_frame_move:
  "\<not> paused s \<Longrightarrow> \<not> \<bar>position_x s + fst (capped_velocity delta s) * capped_delta delta\<bar> > 4.5 \<Longrightarrow>
   k_frame delta s =
     (let s1 = s\<lparr> speed := input_speed delta s,
                  position_x := position_x s + fst (capped_velocity delta s) * capped_delta delta,
                  position_z := position_z s + snd (capped_velocity delta s) * capped_delta delta,
                  rotation_y := steered_angle delta s,
                  vx := fst (capped_velocity delta s), vz := snd (capped_velocity delta s),
                  angle := steered_angle delta s \<rparr> in
      if \<not> crossed s \<and> position_z s + snd (capped_velocity delta s) * capped_delta delta < 0
      then onCrossStopLine (s1\<lparr> crossed := True \<rparr>) else s1)"
  by (simp add: k_frame_def Let_def case_prod_beta)

lemma setStatus_fields [simp]:
  "status (setStatus v s) = v"
  "traffic_score (setStatus v s) = traffic_score s"
  "crossed (setStatus v s) = crossed s"
  "paused (setStatus v s) = paused s"
  "lightState (setStatus v s) = lightState s"
  "trafficKeys (setStatus v s) = trafficKeys s"
  by (simp_all add: setStatus_def)

lemma setStatus_kinematic [simp]:
  "position_x (setStatus v k) = position_x k"
  "position_y (setStatus v k) = position_y k"
  "position_z (setStatus v k) = position_z k"
  "rotation_y (setStatus v k) = rotation_y k"
  "vx (setStatus v k) = vx k"
  "vz (setStatus v k) = vz k"
  "angle (setStatus v k) = angle k"
  "group_physics (setStatus v k) = group_physics k"
  by (simp_all add: setStatus_def)

lemma onCrossStopLine_fields [simp]:
  "status (onCrossStopLine s) = (if lightState s = Red then Failed else Passed)"
  "traffic_score (onCrossStopLine s) = (if lightState s = Red then traffic_score s else traffic_score s + 1)"
  "crossed (onCrossStopLine s) = crossed s"
  "paused (onCrossStopLine s) = paused s"
  by (simp_all add: onCrossStopLine_def)

lemma onCrossStopLine_kinematic [simp]:
  "position_x (onCrossStopLine k) = position_x k"
  "position_z (onCrossStopLine k) = position_z k"
  "vx (onCrossStopLine k) = vx k"
  "vz (onCrossStopLine k) = vz k"
  "angle (onCrossStopLine k) = angle k"
  by (simp_all add: onCrossStopLine_def)

lemma k_onBarrierHit_fields [simp]:
  "status (k_onBarrierHit s) = (if status s = Playing then Failed else status s)"
  "traffic_score (k_onBarrierHit s) = traffic_score s"
  "crossed (k_onBarrierHit s) = crossed s"
  "position_x (k_onBarrierHit s) = position_x s"
  "position_z (k_onBarrierHit s) = position_z s"
  by (simp_all add: k_onBarrierHit_def)

lemma k_frame_crossing:
  assumes "\<not> paused s" "\<not> crossed s" "0 \<le> position_z s" "position_z (k_frame delta s) < 0"
  shows "crossed (k_frame delta s) \<and>
         status (k_frame delta s) = (if lightState s = Red then Failed else Passed) \<and>
         traffic_score (k_frame delta s) =
           (if lightState s = Red then traffic_score s else traffic_score s + 1)"
proof (cases "\<bar>position_x s + fst (capped_velocity delta s) * capped_delta delta\<bar> > 4.5")
  case True
  with assms show ?thesis by (simp add: k_frame_barrier)
next
  case False
  with assms show ?thesis
    by (simp add: k_frame_move Let_def split: if_splits)
qed

lemma k_frame_crossed:
  assumes "crossed s" "status s \<noteq> Playing"
  shows "crossed (k_frame delta s) \<and> status (k_frame delta s) = status s \<and>
         traffic_score (k_frame delta s) = traffic_score s"
proof (cases "paused s")
  case True
  then show ?thesis using assms by (simp add: k_frame_paused)
next
  case np: False
  show ?thesis
  proof (cases "\<bar>position_x s + fst (capped_velocity delta s) * capped_delta delta\<bar> > 4.5")
    case True
    with np assms show ?thesis by (simp add: k_frame_barrier)
  next
    case False
    with np assms show ?thesis by (simp add: k_frame_move Let_def)
  qed
qed


text \<open>What a kinematic frame does to the flag, the score, the status and \<open>z\<close>.\<close>

lemma k_frame_round:
  "crossed (k_frame delta s) = (crossed s \<or> k_crosses delta s)"
  "traffic_score (k_frame delta s) =
     (if k_crosses delta s \<and> \<not> crossed s \<and> lightState s \<noteq> Red
      then traffic_score s + 1 else traffic_score s)"
  "status (k_frame delta s) =
     (if k_crosses delta s \<and> \<not> crossed s then (if lightState s = Red then Failed else Passed)
      else if k_barrier delta s \<and> status s = Playing then Failed else status s)"
  "position_z (k_frame delta s) =
     (if \<not> paused s \<and> \<not> \<bar>next_x delta s\<bar> > 4.5 then next_z delta s else position_z s)"
proof -
  consider (p) "paused s"
    | (b) "\<not> paused s" "\<bar>position_x s + fst (capped_velocity delta s) * capped_delta delta\<bar> > 4.5"
    | (m) "\<not> paused s" "\<not> \<bar>position_x s + fst (capped_velocity delta s) * capped_delta delta\<bar> > 4.5"
    by blast
  then have "crossed (k_frame delta s) = (crossed s \<or> k_crosses delta s) \<and>
    traffic_score (k_frame delta s) =
     (if k_crosses delta s \<and> \<not> crossed s \<and> lightState s \<noteq> Red
      then traffic_score s + 1 else traffic_score s) \<and>
    status (k_frame delta s) =
     (if k_crosses delta s \<and> \<not> crossed s then (if lightState s = Red then Failed else Passed)
      else if k_barrier delta s \<and> status s = Playing then Failed else status s) \<and>
    position_z (k_frame delta s) =
     (if \<not> paused s \<and> \<not> \<bar>next_x delta s\<bar> > 4.5 then next_z delta s else position_z s)"
  proof cases
    case p
    then show ?thesis by (simp add: k_frame_paused k_crosses_def k_barrier_def)
  next
    case b
    then show ?thesis
      by (simp add: k_frame_barrier k_crosses_def k_barrier_def next_x_def)
  next
    case m
    then show ?thesis
      by (simp add: k_frame_move Let_def k_crosses_def k_barrier_def next_x_def next_z_def)
  qed
  then show
    "crossed (k_frame delta s) = (crossed s \<or> k_crosses delta s)"
    "traffic_score (k_frame delta s) =
     (if k_crosses delta s \<and> \<not> crossed s \<and> lightState s \<noteq> Red
      then traffic_score s + 1 else traffic_score s)"
    "status (k_frame delta s) =
     (if k_crosses delta s \<and> \<not> crossed s then (if lightState s = Red then Failed else Passed)
      else if k_barrier delta s \<and> status s = Playing then Failed else status s)"
    "position_z (k_frame delta s) =
     (if \<not> paused s \<and> \<not> \<bar>next_x delta s\<bar> > 4.5 then next_z delta s else position_z s)"
    by blast+
qed


lemma cycle_tick_round [simp]:
  "status (cycle_tick s) = status s"
  "crossed (cycle_tick s) = crossed s"
  "traffic_score (cycle_tick s) = traffic_score s"
  "reset_wait (cycle_tick s) = reset_wait s"
  by (simp_all add: cycle_tick_def cycle_resume_def setLight_def split: cycle_pc.splits)

lemma poll_tick_round [simp]:
  "status (poll_tick s) = status s"
  "crossed (poll_tick s) = crossed s"
  "traffic_score (poll_tick s) = traffic_score s"
  "reset_wait (poll_tick s) = reset_wait s"
  by (simp_all add: poll_tick_def Let_def)

lemma keys_round [simp]:
  "status (keydown k s) = status s"
  "crossed (keydown k s) = crossed s"
  "traffic_score (keydown k s) = traffic_score s"
  "status (keyup k s) = status s"
  "crossed (keyup k s) = crossed s"
  "traffic_score (keyup k s) = traffic_score s"
  "status (unmount s) = status s"
  "crossed (unmount s) = crossed s"
  "traffic_score (unmount s) = traffic_score s"
  by (simp_all add: keydown_def keyup_def unmount_def)

lemma k_reset_fields [simp]:
  "status (k_reset s) = Playing"
  "crossed (k_reset s) = False"
  "traffic_score (k_reset s) = traffic_score s"
  "position_x (k_reset s) = 0"
  "position_y (k_reset s) = 0.3"
  "position_z (k_reset s) = 18"
  "rotation_y (k_reset s) = 0"
  "vx (k_reset s) = vx s"
  "vz (k_reset s) = vz s"
  "angle (k_reset s) = angle s"
  "reset_wait (k_reset s) = (if status s = Playing then reset_wait s else None)"
  by (simp_all add: k_reset_def Let_def setStatus_def split: option.splits)






lemma r_frame_paused: "paused r \<Longrightarrow> r_frame r = r"
  by (simp add: r_frame_def)

lemma r_frame_round:
  "crossed (r_frame r) = (crossed r \<or> (\<not> paused r \<and> vec_z (translation (car_body r)) < 0))"
  "status (r_frame r) =
     (if \<not> paused r \<and> \<not> crossed r \<and> vec_z (translation (car_body r)) < 0
      then (if lightState r = Red then Failed else Passed) else status r)"
  "traffic_score (r_frame r) =
     (if \<not> paused r \<and> \<not> crossed r \<and> vec_z (translation (car_body r)) < 0 \<and> lightState r \<noteq> Red
      then traffic_score r + 1 else traffic_score r)"
  by (auto simp add: r_frame_def Let_def)


lemma crossing_car_eval:
  "\<not> paused crossing_car" "\<not> crossed crossing_car" "0 \<le> position_z crossing_car"
  "lightState crossing_car = Green" "traffic_score crossing_car = 0"
  by (simp_all add: crossing_car_def k_mount_def)

lemma crossing_car_vel: "capped_velocity (1 / 20) crossing_car = (0, - (17 / 20))"
  by (simp add: crossing_car_def k_mount_def capped_velocity_def input_speed_def input_velocity_def
       steered_angle_def steer_input_def capped_delta_def Let_def sqrt_gt_14 sqrt_gt_fifth)

subsection \<open>The barrier in kinematic mode\<close>

lemma ticks_position [simp]:
  "position_x (cycle_tick k) = position_x k"
  "position_x (poll_tick k) = position_x k"
  "position_x (keydown key k) = position_x k"
  "position_x (keyup key k) = position_x k"
  "position_x (unmount k) = position_x k"
  by (simp_all add: cycle_tick_def cycle_resume_def setLight_def poll_tick_def Let_def
      keydown_def keyup_def unmount_def split: cycle_pc.splits)

lemma position_x_ms_tick:
  "\<bar>position_x s\<bar> \<le> 4.5 \<Longrightarrow> \<bar>position_x (ms_tick k_reset s)\<bar> \<le> 4.5"
  by (simp add: ms_tick_def reset_tick_def split: option.splits)

lemma position_x_k_frame:
  "\<bar>position_x s\<bar> \<le> 4.5 \<Longrightarrow> \<bar>position_x (k_frame delta s)\<bar> \<le> 4.5"
proof (cases "paused s")
  case True
  then show "\<bar>position_x s\<bar> \<le> 4.5 \<Longrightarrow> ?thesis" by (simp add: k_frame_paused)
next
  case np: False
  assume ok: "\<bar>position_x s\<bar> \<le> 4.5"
  show ?thesis
  proof (cases "\<bar>position_x s + fst (capped_velocity delta s) * capped_delta delta\<bar> > 4.5")
    case True
    with np ok show ?thesis by (simp add: k_frame_barrier)
  next
    case False
    with np show ?thesis by (simp add: k_frame_move Let_def)
  qed
qed

lemma position_x_k_step:
  assumes "\<bar>position_x s\<bar> \<le> 4.5"
  shows "\<bar>position_x (k_step ev s)\<bar> \<le> 4.5"
proof (cases ev)
  case KMs
  then show ?thesis using position_x_ms_tick [OF assms] by simp
next
  case (KFrame delta)
  then show ?thesis using position_x_k_frame [OF assms] by simp
next
  case KClickReset
  then show ?thesis by simp
qed (use assms in simp_all)

lemma position_x_k_run:
  "\<bar>position_x s\<bar> \<le> 4.5 \<Longrightarrow> \<bar>position_x (k_run evs s)\<bar> \<le> 4.5"
  unfolding k_run_def
proof (induction evs arbitrary: s)
  case Nil
  then show ?case by simp
next
  case (Cons ev evs)
  from Cons.IH [OF position_x_k_step [OF Cons.prems]] show ?case by simp
qed

lemma k_frame_barrier_fields:
  assumes "\<not> paused s"
    and "\<bar>position_x s + fst (capped_velocity delta s) * capped_delta delta\<bar> > 4.5"
  shows "position_x (k_frame delta s) = position_x s"
    and "position_z (k_frame delta s) = position_z s"
    and "vx (k_frame delta s) = 0" and "vz (k_frame delta s) = 0"
    and "angle (k_frame delta s) = steered_angle delta s"
    and "status (k_frame delta s) = (if status s = Playing then Failed else status s)"
  using assms by (simp_all add: k_frame_barrier)

text \<open>
  Claim C10. In kinematic mode the car's \<open>x\<close> satisfies \<open>\<bar>x\<bar> \<le> 4.5\<close> in every reachable
  state. In an unpaused frame whose integrated next position (the position plus the capped
  velocity times the capped frame time) has \<open>\<bar>x\<bar> > 4.5\<close>, neither \<open>x\<close> nor \<open>z\<close> changes and
  both velocity components become 0; otherwise \<open>x\<close> becomes that next position.
\<close>

theorem barrier_keeps_car_inside:
  "\<bar>position_x (k_run evs (k_mount t0))\<bar> \<le> 4.5 \<and>
   (\<not> paused s \<and> \<bar>position_x s + fst (capped_velocity delta s) * capped_delta delta\<bar> > 4.5 \<longrightarrow>
      position_x (k_frame delta s) = position_x s \<and>
      position_z (k_frame delta s) = position_z s \<and>
      vx (k_frame delta s) = 0 \<and> vz (k_frame delta s) = 0) \<and>
   (\<not> paused s \<and> \<not> \<bar>position_x s + fst (capped_velocity delta s) * capped_delta delta\<bar> > 4.5 \<longrightarrow>
      position_x (k_frame delta s) = position_x s + fst (capped_velocity delta s) * capped_delta delta)"
proof -
  have "\<bar>position_x (k_mount t0)\<bar> \<le> 4.5" by (simp add: k_mount_def)
  then have "\<bar>position_x (k_run evs (k_mount t0))\<bar> \<le> 4.5" by (rule position_x_k_run)
  then show ?thesis
    using k_frame_barrier_fields [of s delta]
    by (auto simp: k_frame_move Let_def)
qed

lemma sin_cos_diagonal: "sin diagonal = - (3 / 5)" "cos diagonal = 4 / 5"
proof -
  show "sin diagonal = - (3 / 5)"
    by (simp add: diagonal_def)
  have "cos diagonal = sqrt (1 - (3 / 5)\<^sup>2)"
    by (simp add: diagonal_def cos_arcsin)
  also have "1 - (3 / 5 :: real)\<^sup>2 = (4 / 5) * (4 / 5)"
    by (simp add: power2_eq_square)
  also have "sqrt ((4 / 5) * (4 / 5)) = (4 / 5 :: real)"
    using real_sqrt_abs2 [of "4 / 5"] by simp
  finally show "cos diagonal = 4 / 5" .
qed

lemma barrier_car_eval:
  "\<not> paused barrier_car" "position_x barrier_car = 22 / 5" "position_z barrier_car = 1 / 100"
  "vx barrier_car = 6" "vz barrier_car = - 8" "status barrier_car = Playing"
  "\<not> trafficKeys barrier_car ArrowUp" "\<not> trafficKeys barrier_car ArrowDown"
  "\<not> crossed barrier_car" "lightState barrier_car = Green" "traffic_score barrier_car = 0"
  "angle barrier_car = diagonal"
  by (simp_all add: barrier_car_def k_mount_def)

lemma barrier_car_angle: "steered_angle (1 / 20) barrier_car = diagonal"
  by (simp add: steered_angle_def steer_input_def barrier_car_def k_mount_def Let_def)

lemma barrier_car_vel: "capped_velocity (1 / 20) barrier_car = (51 / 10, - (34 / 5))"
  by (simp add: barrier_car_def k_mount_def capped_velocity_def input_speed_def input_velocity_def
       steered_angle_def steer_input_def capped_delta_def Let_def sqrt_gt_14 sqrt_gt_fifth)

lemma barrier_car_hits:
  "\<bar>position_x barrier_car + fst (capped_velocity (1 / 20) barrier_car) * capped_delta (1 / 20)\<bar> > 4.5"
  by (simp add: barrier_car_vel barrier_car_eval capped_delta_def)

text \<open>
  The theorem at the car next to the barrier (it stays at \<open>x = 4.4\<close>, \<open>z = 0.01\<close> with
  velocity 0) and at the car before the stop line (it moves on).
\<close>

theorem barrier_keeps_car_inside_witness:
  "\<not> paused barrier_car \<and>
   \<bar>position_x barrier_car + fst (capped_velocity (1 / 20) barrier_car) * capped_delta (1 / 20)\<bar> > 4.5 \<and>
   position_x (k_frame (1 / 20) barrier_car) = 4.4 \<and>
   position_z (k_frame (1 / 20) barrier_car) = 0.01 \<and>
   vx (k_frame (1 / 20) barrier_car) = 0 \<and> vz (k_frame (1 / 20) barrier_car) = 0 \<and>
   \<not> paused crossing_car \<and>
   \<not> \<bar>position_x crossing_car + fst (capped_velocity (1 / 20) crossing_car) * capped_delta (1 / 20)\<bar> > 4.5 \<and>
   position_x (k_frame (1 / 20) crossing_car) = 0"
proof -
  have c: "position_x crossing_car = 0"
    by (simp add: crossing_car_def k_mount_def)
  have m: "\<not> \<bar>position_x crossing_car
               + fst (capped_velocity (1 / 20) crossing_car) * capped_delta (1 / 20)\<bar> > 4.5"
    by (simp add: crossing_car_vel c)
  from barrier_keeps_car_inside [of "[]" 0 barrier_car "1 / 20"] barrier_car_hits
    barrier_car_eval(1)
  have b: "position_x (k_frame (1 / 20) barrier_car) = position_x barrier_car \<and>
           position_z (k_frame (1 / 20) barrier_car) = position_z barrier_car \<and>
           vx (k_frame (1 / 20) barrier_car) = 0 \<and> vz (k_frame (1 / 20) barrier_car) = 0"
    by blast
  from barrier_keeps_car_inside [of "[]" 0 crossing_car "1 / 20"] m crossing_car_eval(1)
  have "position_x (k_frame (1 / 20) crossing_car) =
          position_x crossing_car
          + fst (capped_velocity (1 / 20) crossing_car) * capped_delta (1 / 20)"
    by blast
  then have d: "position_x (k_frame (1 / 20) crossing_car) = 0"
    by (simp add: crossing_car_vel c)
  have b': "position_x (k_frame (1 / 20) barrier_car) = 4.4 \<and>
            position_z (k_frame (1 / 20) barrier_car) = 0.01 \<and>
            vx (k_frame (1 / 20) barrier_car) = 0 \<and> vz (k_frame (1 / 20) barrier_car) = 0"
    using b by (simp add: barrier_car_eval)
  show ?thesis
    using b' d m barrier_car_hits barrier_car_eval(1) crossing_car_eval(1) by blast
qed

subsection \<open>The kinematic tick\<close>

lemma capped_velocity_eq:
  "capped_velocity delta s =
     (let c = (if input_speed delta s > 14 then 14 / input_speed delta s else 1) in
      (c * fst (input_velocity delta s), c * snd (input_velocity delta s)))"
  by (simp add: capped_velocity_def Let_def case_prod_beta)

lemma capped_speed_le_14:
  "sqrt (fst (capped_velocity delta s) * fst (capped_velocity delta s)
         + snd (capped_velocity delta s) * snd (capped_velocity delta s)) \<le> 14"
proof -
  obtain ux uz where u: "input_velocity delta s = (ux, uz)" by (cases "input_velocity delta s")
  define m where "m = sqrt (ux * ux + uz * uz)"
  have m: "input_speed delta s = m" by (simp add: input_speed_def u m_def)
  have mm: "m * m = ux * ux + uz * uz"
    unfolding m_def by (simp add: sum_nonneg)
  show ?thesis
  proof (cases "m > 14")
    case True
    then have "m \<noteq> 0" by simp
    define k where "k = 14 / m"
    have km: "k * m = 14"
      using \<open>m \<noteq> 0\<close> by (simp add: k_def)
    have "(k * ux) * (k * ux) + (k * uz) * (k * uz) = (k * m) * (k * m)"
      using mm by (simp add: algebra_simps)
    also have "\<dots> = 196"
      by (simp add: km)
    finally have "sqrt ((14 / m * ux) * (14 / m * ux) + (14 / m * uz) * (14 / m * uz)) = sqrt 196"
      by (simp add: k_def)
    also have "sqrt 196 = (14::real)"
      using real_sqrt_abs2 [of 14] by simp
    finally show ?thesis using True by (simp add: capped_velocity_eq u m)
  next
    case False
    then show ?thesis by (simp add: capped_velocity_eq u m) (simp add: m_def)
  qed
qed


text \<open>
  Claim C9, as amended. A paused kinematic frame changes nothing. For every unpaused
  kinematic frame, with \<open>d\<close> the frame time capped at 0.05 s and \<open>sp\<close> the speed before the
  frame: the heading changes only when \<open>sp > 0.2\<close>,
  by \<open>steer * min (sp * 0.4) 1.4 * d\<close>; the velocity \<open>(ux, uz)\<close> after the held keys is the
  old one plus \<open>18 * d\<close> along the new heading when accelerating, else the old one times
  \<open>max 0 (1 - 12 * d)\<close> when braking, else times \<open>max 0 (1 - 3 * d)\<close>; it is then scaled by
  one factor \<open>c\<close> (\<open>14 / m\<close> when its magnitude \<open>m\<close> exceeds 14, else 1), after which its
  magnitude is at most 14. If the next \<open>x\<close> stays within \<open>\<plusminus>4.5\<close>, that is the new velocity
  and the position advances by it times \<open>d\<close>; otherwise the position is unchanged and the
  velocity is zero.
\<close>

theorem kinematic_tick:
  fixes s :: kinematic and delta :: real
  defines "d \<equiv> min delta 0.05"
    and "sp \<equiv> sqrt (vx s * vx s + vz s * vz s)"
    and "steer \<equiv> (if trafficKeys s ArrowLeft then 1 else 0)
                  - (if trafficKeys s ArrowRight then 1 else (0::real))"
  defines "a \<equiv> (if sp > 0.2 then angle s + steer * min (sp * 0.4) 1.4 * d else angle s)"
  defines "k \<equiv> (if trafficKeys s ArrowDown then 12 else (3::real))"
  defines "ux \<equiv> (if trafficKeys s ArrowUp then vx s + 18 * d * (- sin a)
                  else vx s * max 0 (1 - k * d))"
    and "uz \<equiv> (if trafficKeys s ArrowUp then vz s + 18 * d * (- cos a)
                  else vz s * max 0 (1 - k * d))"
  defines "m \<equiv> sqrt (ux * ux + uz * uz)"
  defines "c \<equiv> (if m > 14 then 14 / m else 1)"
  shows "(paused s \<longrightarrow> k_frame delta s = s) \<and>
         (\<not> paused s \<longrightarrow>
            angle (k_frame delta s) = a \<and>
            sqrt ((c * ux) * (c * ux) + (c * uz) * (c * uz)) \<le> 14 \<and>
            (if \<bar>position_x s + c * ux * d\<bar> > 4.5
             then vx (k_frame delta s) = 0 \<and> vz (k_frame delta s) = 0 \<and>
                  position_x (k_frame delta s) = position_x s \<and>
                  position_z (k_frame delta s) = position_z s
             else vx (k_frame delta s) = c * ux \<and> vz (k_frame delta s) = c * uz \<and>
                  position_x (k_frame delta s) = position_x s + c * ux * d \<and>
                  position_z (k_frame delta s) = position_z s + c * uz * d))"
proof (rule conjI; rule impI)
  assume "paused s"
  then show "k_frame delta s = s" by (rule k_frame_paused)
next
  assume unpaused: "\<not> paused s"
  have cd: "capped_delta delta = d"
    by (simp add: capped_delta_def d_def)
  have sa: "steered_angle delta s = a"
    by (simp add: steered_angle_def Let_def cd a_def sp_def steer_def steer_input_def)
  have iv: "input_velocity delta s = (ux, uz)"
    by (simp add: input_velocity_def Let_def cd sa ux_def uz_def k_def)
  have isp: "input_speed delta s = m"
    by (simp add: input_speed_def iv m_def)
  have cv: "capped_velocity delta s = (c * ux, c * uz)"
    by (simp add: capped_velocity_eq iv isp c_def Let_def)
  have le: "sqrt ((c * ux) * (c * ux) + (c * uz) * (c * uz)) \<le> 14"
    using capped_speed_le_14 [of delta s] by (simp add: cv)
  show "angle (k_frame delta s) = a \<and>
        sqrt ((c * ux) * (c * ux) + (c * uz) * (c * uz)) \<le> 14 \<and>
        (if \<bar>position_x s + c * ux * d\<bar> > 4.5
         then vx (k_frame delta s) = 0 \<and> vz (k_frame delta s) = 0 \<and>
              position_x (k_frame delta s) = position_x s \<and>
              position_z (k_frame delta s) = position_z s
         else vx (k_frame delta s) = c * ux \<and> vz (k_frame delta s) = c * uz \<and>
              position_x (k_frame delta s) = position_x s + c * ux * d \<and>
              position_z (k_frame delta s) = position_z s + c * uz * d)"
  proof (cases "\<bar>position_x s + c * ux * d\<bar> > 4.5")
    case True
    then have "\<bar>position_x s + fst (capped_velocity delta s) * capped_delta delta\<bar> > 4.5"
      by (simp add: cv cd)
    from k_frame_barrier_fields [OF unpaused this] True le show ?thesis
      by (simp add: sa)
  next
    case False
    then have "\<not> \<bar>position_x s + fst (capped_velocity delta s) * capped_delta delta\<bar> > 4.5"
      by (simp add: cv cd)
    from k_frame_move [OF unpaused this] False le show ?thesis
      by (simp add: sa cv cd Let_def)
  qed
qed

lemma accelerating_car_eval:
  "\<not> paused accelerating_car" "trafficKeys accelerating_car ArrowUp"
  "\<not> trafficKeys accelerating_car ArrowLeft" "\<not> trafficKeys accelerating_car ArrowRight"
  "vx accelerating_car = 0" "vz accelerating_car = 0" "angle accelerating_car = 0"
  "position_x accelerating_car = 0" "position_z accelerating_car = 18"
  by (simp_all add: accelerating_car_def keydown_def is_arrow_def k_mount_def)

text \<open>
  The theorem at the first accelerating frame after the mount (the velocity becomes
  \<open>(0, -0.9)\<close> and the car moves 0.045 towards the line) and at the same car after a
  press of the pause key (the frame leaves it as it is).
\<close>

theorem kinematic_tick_witness:
  "\<not> paused accelerating_car \<and>
   angle (k_frame (1 / 20) accelerating_car) = 0 \<and>
   vx (k_frame (1 / 20) accelerating_car) = 0 \<and>
   vz (k_frame (1 / 20) accelerating_car) = - (9 / 10) \<and>
   position_x (k_frame (1 / 20) accelerating_car) = 0 \<and>
   position_z (k_frame (1 / 20) accelerating_car) = 18 - 9 / 200 \<and>
   paused (keydown KeyP accelerating_car) \<and>
   k_frame (1 / 20) (keydown KeyP accelerating_car) = keydown KeyP accelerating_car"
proof -
  have p: "paused (keydown KeyP accelerating_car)"
    by (simp add: keydown_def is_arrow_def accelerating_car_eval)
  have a: "angle (k_frame (1 / 20) accelerating_car) = 0 \<and>
     vx (k_frame (1 / 20) accelerating_car) = 0 \<and>
     vz (k_frame (1 / 20) accelerating_car) = - (9 / 10) \<and>
     position_x (k_frame (1 / 20) accelerating_car) = 0 \<and>
     position_z (k_frame (1 / 20) accelerating_car) = 18 - 9 / 200"
    using kinematic_tick [of accelerating_car "1 / 20"]
    by (simp add: accelerating_car_eval sqrt_gt_14 sqrt_gt_fifth)
  have b: "k_frame (1 / 20) (keydown KeyP accelerating_car) = keydown KeyP accelerating_car"
    using kinematic_tick [of "keydown KeyP accelerating_car" "1 / 20"] p by blast
  show ?thesis
    using a b p accelerating_car_eval(1) by blast
qed

text \<open>
  Claim C9 as stated fails on a frame that would cross the barrier. The car next to the
  barrier coasts; the claim gives it the \<open>x\<close> velocity \<open>6 * 0.85 = 5.1\<close> and a position
  advanced by that velocity times 0.05, the frame callback gives it velocity 0 and leaves
  the position as it is.
\<close>

theorem kinematic_tick_counterexample:
  "\<not> paused barrier_car \<and> \<not> trafficKeys barrier_car ArrowUp \<and>
   \<not> trafficKeys barrier_car ArrowDown \<and>
   vx barrier_car * max 0 (1 - 3 * min (1 / 20) 0.05) = 51 / 10 \<and>
   vx (k_frame (1 / 20) barrier_car) = 0 \<and>
   vx (k_frame (1 / 20) barrier_car) \<noteq> vx barrier_car * max 0 (1 - 3 * min (1 / 20) 0.05) \<and>
   position_x (k_frame (1 / 20) barrier_car) = position_x barrier_car \<and>
   position_x (k_frame (1 / 20) barrier_car) \<noteq>
     position_x barrier_car + vx barrier_car * max 0 (1 - 3 * min (1 / 20) 0.05) * min (1 / 20) 0.05"
  using k_frame_barrier_fields [OF barrier_car_eval(1) barrier_car_hits]
  by (simp add: barrier_car_eval)

subsection \<open>Barrier collisions and the round status\<close>

lemma barrier_car_frame:
  "k_frame (1 / 20) barrier_car =
     (setStatus Failed barrier_car)\<lparr> vx := 0, vz := 0, angle := diagonal \<rparr>"
  using k_frame_barrier [OF barrier_car_eval(1) barrier_car_hits]
  by (simp add: barrier_car_angle k_onBarrierHit_def barrier_car_eval)

lemma after_barrier_eval:
  "\<not> paused after_barrier" "\<not> crossed after_barrier" "lightState after_barrier = Green"
  "traffic_score after_barrier = 0" "status after_barrier = Failed"
  "position_x after_barrier = 22 / 5" "position_z after_barrier = 1 / 100"
  by (simp_all add: after_barrier_def keydown_def is_arrow_def setStatus_def barrier_car_def k_mount_def)

lemma after_barrier_vel: "capped_velocity (1 / 20) after_barrier = (27 / 50, - (18 / 25))"
  by (simp add: after_barrier_def keydown_def is_arrow_def setStatus_def barrier_car_def
      k_mount_def capped_velocity_def input_speed_def input_velocity_def
      steered_angle_def steer_input_def capped_delta_def Let_def sqrt_gt_14 sqrt_gt_fifth
      sin_cos_diagonal)

lemma after_barrier_frame:
  "status (k_frame (1 / 20) after_barrier) = Passed \<and>
   traffic_score (k_frame (1 / 20) after_barrier) = 1"
proof -
  have "\<not> \<bar>position_x after_barrier
            + fst (capped_velocity (1 / 20) after_barrier) * capped_delta (1 / 20)\<bar> > 4.5"
    by (simp add: after_barrier_vel after_barrier_eval capped_delta_def)
  from k_frame_move [OF after_barrier_eval(1) this] show ?thesis
    by (simp add: Let_def after_barrier_vel after_barrier_eval capped_delta_def)
qed

text \<open>
  Claim C5 as stated fails: a terminal status does change again before any reset. In
  kinematic mode the car of \<open>barrier_car\<close> hits the barrier (failed), accelerates, and
  crosses the stop line on green in the next frame: the status becomes passed and the
  score 1, with no reset in between.
\<close>

theorem terminal_status_changes_again:
  "status barrier_car = Playing \<and>
   status (k_run [KFrame (1 / 20)] barrier_car) = Failed \<and>
   status (k_run [KFrame (1 / 20), KKeyDown ArrowUp, KFrame (1 / 20)] barrier_car) = Passed \<and>
   traffic_score (k_run [KFrame (1 / 20), KKeyDown ArrowUp, KFrame (1 / 20)] barrier_car) = 1"
proof -
  have k1: "status (k_run [KFrame (1 / 20)] barrier_car) = Failed"
    by (simp add: k_run_def barrier_car_frame)
  have "k_run [KFrame (1 / 20), KKeyDown ArrowUp, KFrame (1 / 20)] barrier_car
          = k_frame (1 / 20) after_barrier"
    by (simp add: k_run_def barrier_car_frame after_barrier_def)
  then have k2: "status (k_run [KFrame (1 / 20), KKeyDown ArrowUp, KFrame (1 / 20)] barrier_car)
                   = Passed \<and>
       traffic_score (k_run [KFrame (1 / 20), KKeyDown ArrowUp, KFrame (1 / 20)] barrier_car) = 1"
    using after_barrier_frame by simp
  show ?thesis
    using k1 k2 by (simp add: barrier_car_eval)
qed


lemma after_barrier_crosses: "position_z (k_frame (1 / 20) after_barrier) < 0"
proof -
  have "\<not> \<bar>next_x (1 / 20) after_barrier\<bar> > 4.5"
    by (simp add: next_x_def after_barrier_vel after_barrier_eval capped_delta_def)
  then show ?thesis
    using after_barrier_eval(1)
    by (simp add: k_frame_round(4) next_z_def after_barrier_vel after_barrier_eval
        capped_delta_def)
qed

text \<open>
  Claim C5, as amended. In both modes a barrier collision in a round whose status is
  playing sets the status to failed, whatever the light shows. In kinematic mode the
  collision is the frame whose next \<open>x\<close> would leave \<open>\<plusminus>4.5\<close>; it leaves a passed or failed
  status as it is, and the flag and the score too; and once the stop-line crossing has
  been resolved (flag set, status terminal) frames change neither the status nor the
  score. The first crossing of a round is resolved from the light alone, also when the
  status is already failed from a barrier collision: failed with the score unchanged on
  red, passed with the score one higher otherwise.
\<close>

theorem barrier_hit_fails_round:
  "(status s = Playing \<longrightarrow> status (k_onBarrierHit (s\<lparr> lightState := l \<rparr>)) = Failed) \<and>
   (status s \<noteq> Playing \<longrightarrow> k_onBarrierHit s = s) \<and>
   (status r = Playing \<longrightarrow> status (r_onBarrierHit (r\<lparr> lightState := l \<rparr>)) = Failed) \<and>
   (\<not> paused s \<and> \<bar>position_x s + fst (capped_velocity delta s) * capped_delta delta\<bar> > 4.5 \<longrightarrow>
      status (k_frame delta s) = (if status s = Playing then Failed else status s) \<and>
      traffic_score (k_frame delta s) = traffic_score s \<and>
      crossed (k_frame delta s) = crossed s) \<and>
   (crossed s \<and> status s \<noteq> Playing \<longrightarrow>
      crossed (k_frame delta s) \<and> status (k_frame delta s) = status s \<and>
      traffic_score (k_frame delta s) = traffic_score s) \<and>
   (\<not> paused s \<and> \<not> crossed s \<and> 0 \<le> position_z s \<and> position_z (k_frame delta s) < 0 \<longrightarrow>
      crossed (k_frame delta s) \<and>
      status (k_frame delta s) = (if lightState s = Red then Failed else Passed) \<and>
      traffic_score (k_frame delta s) =
        (if lightState s = Red then traffic_score s else traffic_score s + 1)) \<and>
   (\<not> paused r \<and> \<not> crossed r \<and> vec_z (translation (car_body r)) < 0 \<longrightarrow>
      crossed (r_frame r) \<and>
      status (r_frame r) = (if lightState r = Red then Failed else Passed) \<and>
      traffic_score (r_frame r) =
        (if lightState r = Red then traffic_score r else traffic_score r + 1))"
proof -
  have a: "\<not> paused s \<and>
      \<bar>position_x s + fst (capped_velocity delta s) * capped_delta delta\<bar> > 4.5 \<longrightarrow>
      status (k_frame delta s) = (if status s = Playing then Failed else status s) \<and>
      traffic_score (k_frame delta s) = traffic_score s \<and>
      crossed (k_frame delta s) = crossed s"
    by (simp add: k_frame_round k_crosses_def k_barrier_def next_x_def)
  show ?thesis
    using a k_frame_crossed [of s delta] k_frame_crossing [of s delta]
    by (simp add: r_frame_round r_onBarrierHit_def Let_def k_onBarrierHit_def)
qed

text \<open>
  The theorem at the car next to the barrier (the frame fails the round; so does the
  handler on red), at the same car one frame later (failed from the barrier, it crosses
  the line on green: passed, score 1), and in rigid-body mode at the freshly mounted game
  on yellow and at the body past the line after a barrier contact.
\<close>

theorem barrier_hit_fails_round_witness:
  "status barrier_car = Playing \<and> \<not> paused barrier_car \<and>
   \<bar>position_x barrier_car + fst (capped_velocity (1 / 20) barrier_car) * capped_delta (1 / 20)\<bar>
     > 4.5 \<and>
   status (k_frame (1 / 20) barrier_car) = Failed \<and>
   traffic_score (k_frame (1 / 20) barrier_car) = 0 \<and>
   status (k_onBarrierHit (barrier_car\<lparr> lightState := Red \<rparr>)) = Failed \<and>
   status after_barrier = Failed \<and> \<not> paused after_barrier \<and> \<not> crossed after_barrier \<and>
   0 \<le> position_z after_barrier \<and> position_z (k_frame (1 / 20) after_barrier) < 0 \<and>
   k_onBarrierHit after_barrier = after_barrier \<and>
   status (k_frame (1 / 20) after_barrier) = Passed \<and>
   traffic_score (k_frame (1 / 20) after_barrier) = 1 \<and>
   status (k_frame (1 / 20) (k_frame (1 / 20) after_barrier)) = Passed \<and>
   traffic_score (k_frame (1 / 20) (k_frame (1 / 20) after_barrier)) = 1 \<and>
   status (r_mount 0) = Playing \<and>
   status (r_onBarrierHit ((r_mount 0)\<lparr> lightState := Yellow \<rparr>)) = Failed \<and>
   status (r_onBarrierHit crossing_body) = Failed \<and>
   \<not> paused (r_onBarrierHit crossing_body) \<and> \<not> crossed (r_onBarrierHit crossing_body) \<and>
   vec_z (translation (car_body (r_onBarrierHit crossing_body))) < 0 \<and>
   status (r_frame (r_onBarrierHit crossing_body)) = Passed \<and>
   traffic_score (r_frame (r_onBarrierHit crossing_body)) = 1"
proof -
  let ?h = "r_onBarrierHit crossing_body"
  have r: "status (r_mount 0) = Playing"
    by (simp add: r_mount_def)
  have h: "status ?h = Failed" "\<not> paused ?h" "\<not> crossed ?h"
    "vec_z (translation (car_body ?h)) < 0" "lightState ?h = Green" "traffic_score ?h = 0"
    by (simp_all add: r_onBarrierHit_def Let_def setStatus_def crossing_body_def r_mount_def)
  have ab: "status after_barrier \<noteq> Playing" "0 \<le> position_z after_barrier"
    by (simp_all add: after_barrier_eval)
  note w1 = barrier_hit_fails_round [where s = barrier_car and r = "r_mount 0" and l = Red
      and delta = "1 / 20"]
  note w2 = barrier_hit_fails_round [where s = after_barrier and r = ?h and l = Yellow
      and delta = "1 / 20"]
  note w3 = barrier_hit_fails_round [where s = "k_frame (1 / 20) after_barrier"
      and r = "r_mount 0" and l = Yellow and delta = "1 / 20"]
  from w1 barrier_car_eval(1,6) barrier_car_hits
  have a: "status (k_frame (1 / 20) barrier_car) = Failed \<and>
           traffic_score (k_frame (1 / 20) barrier_car) = 0 \<and>
           status (k_onBarrierHit (barrier_car\<lparr> lightState := Red \<rparr>)) = Failed"
    by (simp add: barrier_car_eval(11))
  from w3 r
  have b: "status (r_onBarrierHit ((r_mount 0)\<lparr> lightState := Yellow \<rparr>)) = Failed"
    by simp
  from w2 ab(1) have c: "k_onBarrierHit after_barrier = after_barrier"
    by blast
  from w2 after_barrier_eval(1,2) ab(2) after_barrier_crosses
  have d: "crossed (k_frame (1 / 20) after_barrier) \<and>
           status (k_frame (1 / 20) after_barrier) = Passed \<and>
           traffic_score (k_frame (1 / 20) after_barrier) = 1"
    by (simp add: after_barrier_eval(3,4))
  from w3 d
  have e: "status (k_frame (1 / 20) (k_frame (1 / 20) after_barrier)) = Passed \<and>
           traffic_score (k_frame (1 / 20) (k_frame (1 / 20) after_barrier)) = 1"
    by simp
  from w2 h
  have f: "status (r_frame ?h) = Passed \<and> traffic_score (r_frame ?h) = 1"
    by simp
  show ?thesis
    using a b c d e f r h(1-4) barrier_car_eval(1,6) barrier_car_hits after_barrier_eval(1,2,5)
      ab(2) after_barrier_crosses
    by blast
qed

subsection \<open>The auto-reset\<close>

lemma cycle_resume_reset_wait:
  "cycle_resume (s\<lparr> reset_wait := w \<rparr>) = (cycle_resume s)\<lparr> reset_wait := w \<rparr>"
  by (cases "cycle_pc s") (simp_all add: cycle_resume_def setLight_def)

lemma cycle_tick_reset_wait:
  "cycle_tick (s\<lparr> reset_wait := w \<rparr>) = (cycle_tick s)\<lparr> reset_wait := w \<rparr>"
  by (simp add: cycle_tick_def cycle_resume_reset_wait)

lemma poll_tick_reset_wait:
  "poll_tick (s\<lparr> reset_wait := w \<rparr>) = (poll_tick s)\<lparr> reset_wait := w \<rparr>"
  by (simp add: poll_tick_def Let_def)

lemma cycle_tick_reset_wait_clock:
  "cycle_tick (s\<lparr> reset_wait := w, clock := c \<rparr>)
     = (cycle_tick (s\<lparr> clock := c \<rparr>))\<lparr> reset_wait := w \<rparr>"
proof -
  have e: "s\<lparr> reset_wait := w, clock := c \<rparr> = (s\<lparr> clock := c \<rparr>)\<lparr> reset_wait := w \<rparr>"
    by simp
  show ?thesis
    by (simp only: e cycle_tick_reset_wait)
qed

lemma quiet_ms_reset_wait:
  "quiet_ms (s\<lparr> reset_wait := w \<rparr>) = (quiet_ms s)\<lparr> reset_wait := w \<rparr>"
  by (simp add: quiet_ms_def cycle_tick_reset_wait_clock poll_tick_reset_wait)

lemma ms_tick_quiet: "ms_tick reset s = reset_tick reset (quiet_ms s)"
  by (simp add: ms_tick_def quiet_ms_def)

lemma quiet_ms_fields [simp]:
  "reset_wait (quiet_ms s) = reset_wait s"
  "status (quiet_ms s) = status s"
  "crossed (quiet_ms s) = crossed s"
  "traffic_score (quiet_ms s) = traffic_score s"
  by (simp_all add: quiet_ms_def)

lemma ms_ticks_pending:
  "reset_wait s = Some r \<Longrightarrow> n < r \<Longrightarrow>
   (ms_tick reset ^^ n) s = ((quiet_ms ^^ n) s)\<lparr> reset_wait := Some (r - n) \<rparr>"
proof (induction n)
  case 0
  then show ?case by simp
next
  case (Suc n)
  then have ih: "(ms_tick reset ^^ n) s = ((quiet_ms ^^ n) s)\<lparr> reset_wait := Some (r - n) \<rparr>"
    by simp
  have gt: "\<not> r - n \<le> 1" and eq: "r - n - 1 = r - Suc n"
    using Suc.prems(2) by simp_all
  have "(ms_tick reset ^^ Suc n) s = ms_tick reset ((ms_tick reset ^^ n) s)"
    by simp
  also have "\<dots> = ms_tick reset (((quiet_ms ^^ n) s)\<lparr> reset_wait := Some (r - n) \<rparr>)"
    by (simp only: ih)
  also have "\<dots> = (quiet_ms ((quiet_ms ^^ n) s))\<lparr> reset_wait := Some (r - Suc n) \<rparr>"
    using gt eq by (simp add: ms_tick_quiet quiet_ms_reset_wait reset_tick_def)
  finally show ?case by simp
qed

lemma ms_ticks_fire:
  assumes "reset_wait s = Some r" "0 < r"
  shows "(ms_tick reset ^^ r) s = reset (((quiet_ms ^^ r) s)\<lparr> reset_wait := None \<rparr>)"
proof -
  obtain n where r: "r = Suc n" using assms(2) by (cases r) auto
  have ih: "(ms_tick reset ^^ n) s = ((quiet_ms ^^ n) s)\<lparr> reset_wait := Some (r - n) \<rparr>"
    using ms_ticks_pending [OF assms(1), of n] r by simp
  have "(ms_tick reset ^^ r) s = ms_tick reset ((ms_tick reset ^^ n) s)"
    by (simp add: r)
  also have "\<dots> = ms_tick reset (((quiet_ms ^^ n) s)\<lparr> reset_wait := Some (r - n) \<rparr>)"
    by (simp only: ih)
  also have "\<dots> = reset ((quiet_ms ((quiet_ms ^^ n) s))\<lparr> reset_wait := None \<rparr>)"
    by (simp add: r ms_tick_quiet quiet_ms_reset_wait reset_tick_def)
  finally show ?thesis by (simp add: r)
qed

lemma quiet_ms_iterated:
  "(\<And>x. f (quiet_ms x) = f x) \<Longrightarrow> f ((quiet_ms ^^ n) s) = f s"
  by (induction n) simp_all


lemma quiet_ms_kinematic [simp]:
  "vx (quiet_ms k) = vx k"
  "vz (quiet_ms k) = vz k"
  "angle (quiet_ms k) = angle k"
  "position_x (quiet_ms k) = position_x k"
  "position_y (quiet_ms k) = position_y k"
  "position_z (quiet_ms k) = position_z k"
  "rotation_y (quiet_ms k) = rotation_y k"
  by (simp_all add: quiet_ms_def poll_tick_def cycle_tick_def cycle_resume_def setLight_def
      Let_def split: cycle_pc.splits)

lemma k_run_ms: "k_run (replicate n KMs) s = (ms_tick k_reset ^^ n) s"
proof -
  have "k_step KMs = ms_tick k_reset" by (rule ext) simp
  then show ?thesis by (simp add: k_run_def)
qed

lemma k_auto_reset_pending:
  assumes "reset_wait s = Some 4000" "n < 4000"
  shows "status (k_run (replicate n KMs) s) = status s \<and>
         crossed (k_run (replicate n KMs) s) = crossed s \<and>
         position_z (k_run (replicate n KMs) s) = position_z s \<and>
         reset_wait (k_run (replicate n KMs) s) = Some (4000 - n)"
  using ms_ticks_pending [OF assms, of k_reset]
  by (simp add: k_run_ms quiet_ms_iterated)

lemma k_auto_reset_fires:
  assumes "reset_wait s = Some 4000"
  shows "status (k_run (replicate 4000 KMs) s) = Playing \<and>
         \<not> crossed (k_run (replicate 4000 KMs) s) \<and>
         position_x (k_run (replicate 4000 KMs) s) = 0 \<and>
         position_y (k_run (replicate 4000 KMs) s) = 0.3 \<and>
         position_z (k_run (replicate 4000 KMs) s) = 18 \<and>
         rotation_y (k_run (replicate 4000 KMs) s) = 0 \<and>
         vx (k_run (replicate 4000 KMs) s) = vx s \<and>
         vz (k_run (replicate 4000 KMs) s) = vz s \<and>
         angle (k_run (replicate 4000 KMs) s) = angle s"
  using ms_ticks_fire [OF assms, of k_reset]
  by (simp add: k_run_ms quiet_ms_iterated)

lemma k_reset_cancels_timer: "status s \<noteq> Playing \<Longrightarrow> reset_wait (k_reset s) = None"
  by simp

lemma setStatus_starts_timer:
  "status s = Playing \<Longrightarrow> v \<noteq> Playing \<Longrightarrow> reset_wait (setStatus v s) = Some 4000"
  by (cases v) (simp_all add: setStatus_def)

lemma accelerating_car_vel: "capped_velocity (1 / 20) accelerating_car = (0, - (9 / 10))"
  by (simp add: accelerating_car_def keydown_def is_arrow_def k_mount_def capped_velocity_def
      input_speed_def input_velocity_def steered_angle_def steer_input_def capped_delta_def
      Let_def sqrt_gt_14 sqrt_gt_fifth)

lemma accelerating_car_frame:
  "vz (k_frame (1 / 20) accelerating_car) = - (9 / 10) \<and>
   vx (k_frame (1 / 20) accelerating_car) = 0"
proof -
  have "\<not> \<bar>position_x accelerating_car
            + fst (capped_velocity (1 / 20) accelerating_car) * capped_delta (1 / 20)\<bar> > 4.5"
    by (simp add: accelerating_car_vel accelerating_car_eval)
  from k_frame_move [OF accelerating_car_eval(1) this] show ?thesis
    by (simp add: Let_def accelerating_car_vel accelerating_car_eval capped_delta_def)
qed

lemma crossing_car_frame:
  "status (k_frame (1 / 20) crossing_car) = Passed \<and>
   vz (k_frame (1 / 20) crossing_car) = - (17 / 20) \<and>
   reset_wait (k_frame (1 / 20) crossing_car) = Some 4000"
proof -
  have x: "position_x crossing_car = 0" and z: "position_z crossing_car = 1 / 100"
    and st: "status crossing_car = Playing"
    by (simp_all add: crossing_car_def k_mount_def)
  have "\<not> \<bar>position_x crossing_car
            + fst (capped_velocity (1 / 20) crossing_car) * capped_delta (1 / 20)\<bar> > 4.5"
    by (simp add: crossing_car_vel x)
  from k_frame_move [OF crossing_car_eval(1) this] show ?thesis
    by (simp add: Let_def crossing_car_vel crossing_car_eval x z st capped_delta_def
        onCrossStopLine_def setStatus_def)
qed

text \<open>
  Claim C6 (the velocity part fails on the code in kinematic mode). \<^verbatim>\<open>reset\<close> looks for
  the car's physics under the property \<^verbatim>\<open>__physics\<close> of the group object, which is never
  set; the velocity lives in the \<^verbatim>\<open>physics\<close> ref of the component \<^verbatim>\<open>Car\<close> and is left as
  it is. After one accelerating frame and a click on Reset the car is back at \<open>z = 18\<close>
  with status playing and still has the velocity \<open>-0.9\<close>. After a crossing on green
  (passed) and 4000 ms the automatic reset has fired, the car is back at \<open>z = 18\<close> with
  status playing, and still has the velocity \<open>-0.85\<close> it crossed with.
\<close>

theorem kinematic_reset_keeps_velocity:
  "vz (k_run [KKeyDown ArrowUp, KFrame (1 / 20), KClickReset] (k_mount 0)) = - (9 / 10) \<and>
   position_z (k_run [KKeyDown ArrowUp, KFrame (1 / 20), KClickReset] (k_mount 0)) = 18 \<and>
   status (k_run [KKeyDown ArrowUp, KFrame (1 / 20), KClickReset] (k_mount 0)) = Playing \<and>
   status (k_run [KFrame (1 / 20)] crossing_car) = Passed \<and>
   status (k_run (KFrame (1 / 20) # replicate 4000 KMs) crossing_car) = Playing \<and>
   position_z (k_run (KFrame (1 / 20) # replicate 4000 KMs) crossing_car) = 18 \<and>
   vz (k_run (KFrame (1 / 20) # replicate 4000 KMs) crossing_car) = - (17 / 20)"
proof -
  have "k_run [KKeyDown ArrowUp, KFrame (1 / 20), KClickReset] (k_mount 0)
          = k_reset (k_frame (1 / 20) accelerating_car)"
    by (simp add: k_run_def accelerating_car_def)
  then have manual:
    "vz (k_run [KKeyDown ArrowUp, KFrame (1 / 20), KClickReset] (k_mount 0)) = - (9 / 10) \<and>
     position_z (k_run [KKeyDown ArrowUp, KFrame (1 / 20), KClickReset] (k_mount 0)) = 18 \<and>
     status (k_run [KKeyDown ArrowUp, KFrame (1 / 20), KClickReset] (k_mount 0)) = Playing"
    using accelerating_car_frame by simp
  have one: "k_run [KFrame (1 / 20)] crossing_car = k_frame (1 / 20) crossing_car"
    by (simp add: k_run_def)
  have "k_run (KFrame (1 / 20) # replicate 4000 KMs) crossing_car
          = k_run (replicate 4000 KMs) (k_frame (1 / 20) crossing_car)"
    by (simp add: k_run_def)
  then have auto:
    "status (k_run (KFrame (1 / 20) # replicate 4000 KMs) crossing_car) = Playing \<and>
     position_z (k_run (KFrame (1 / 20) # replicate 4000 KMs) crossing_car) = 18 \<and>
     vz (k_run (KFrame (1 / 20) # replicate 4000 KMs) crossing_car) = - (17 / 20)"
    using k_auto_reset_fires [of "k_frame (1 / 20) crossing_car"] crossing_car_frame by simp
  show ?thesis
    using manual auto one crossing_car_frame by simp
qed

subsection \<open>Timing of the automatic reset, and the score\<close>

lemma prune_tick_fields [simp]:
  "reset_wait (prune_tick r) = reset_wait r"
  "status (prune_tick r) = status r"
  "crossed (prune_tick r) = crossed r"
  "traffic_score (prune_tick r) = traffic_score r"
  "car_body (prune_tick r) = car_body r"
  by (simp_all add: prune_tick_def)

lemma quiet_ms_rigid [simp]: "car_body (quiet_ms r) = car_body r"
  by (simp add: quiet_ms_def poll_tick_def cycle_tick_def cycle_resume_def setLight_def
      Let_def split: cycle_pc.splits)

lemma r_reset_fields [simp]:
  "status (r_reset r) = Playing"
  "crossed (r_reset r) = False"
  "traffic_score (r_reset r) = traffic_score r"
  "translation (car_body (r_reset r)) = \<lparr> vec_x = 0, vec_y = 0.4, vec_z = 18 \<rparr>"
  "linvel (car_body (r_reset r)) = zero_vec"
  "angvel (car_body (r_reset r)) = zero_vec"
  "rotation (car_body (r_reset r)) = rotation (car_body r)"
  "reset_wait (r_reset r) = (if status r = Playing then reset_wait r else None)"
  by (simp_all add: r_reset_def Let_def setStatus_def)

lemma r_ms_pending_step:
  assumes "reset_wait r = Some k" "1 < k"
  shows "reset_wait (r_step RMs r) = Some (k - 1)" "status (r_step RMs r) = status r"
    "crossed (r_step RMs r) = crossed r"
  using assms by (simp_all add: ms_tick_quiet reset_tick_def Let_def)

lemma r_ms_pending:
  "reset_wait r = Some k \<Longrightarrow> n < k \<Longrightarrow>
   reset_wait ((r_step RMs ^^ n) r) = Some (k - n) \<and>
   status ((r_step RMs ^^ n) r) = status r \<and>
   crossed ((r_step RMs ^^ n) r) = crossed r"
proof (induction n)
  case 0
  then show ?case by simp
next
  case (Suc n)
  let ?x = "(r_step RMs ^^ n) r"
  from Suc.prems(2) have "n < k" by simp
  note ih = Suc.IH [OF Suc.prems(1) this]
  have ih1: "reset_wait ?x = Some (k - n)" and ih2: "status ?x = status r"
    and ih3: "crossed ?x = crossed r"
    using ih by blast+
  have gt: "1 < k - n" and eq: "k - n - 1 = k - Suc n"
    using Suc.prems(2) by simp_all
  have st: "(r_step RMs ^^ Suc n) r = r_step RMs ?x"
    by (simp only: funpow.simps o_apply)
  have "reset_wait (r_step RMs ?x) = Some (k - Suc n)"
    using r_ms_pending_step(1) [OF ih1 gt] eq by (simp only:)
  moreover have "status (r_step RMs ?x) = status r"
    using r_ms_pending_step(2) [OF ih1 gt] ih2 by (simp only:)
  moreover have "crossed (r_step RMs ?x) = crossed r"
    using r_ms_pending_step(3) [OF ih1 gt] ih3 by (simp only:)
  ultimately show ?case
    unfolding st by blast
qed

lemma r_ms_fire_step:
  assumes "reset_wait r = Some 1"
  shows "status (r_step RMs r) = Playing" "\<not> crossed (r_step RMs r)"
    "translation (car_body (r_step RMs r)) = \<lparr> vec_x = 0, vec_y = 0.4, vec_z = 18 \<rparr>"
    "linvel (car_body (r_step RMs r)) = zero_vec"
    "angvel (car_body (r_step RMs r)) = zero_vec"
  using assms by (simp_all add: ms_tick_quiet reset_tick_def Let_def render_def)

lemma r_run_ms: "r_run (replicate n RMs) r = (r_step RMs ^^ n) r"
  by (simp only: r_run_def fold_replicate)

text \<open>
  The timing of the automatic reset, in both modes. A round that has just entered a
  terminal status has the timeout at 4000 ms. With no other event, the status and the
  flag (and in kinematic mode the car's position) stay as they are for every time below
  4000 ms; at 4000 ms the reset has fired: the status is playing, the flag is cleared and
  the car is at its spawn position (in rigid-body mode with zero linear and angular
  velocity); no timeout is pending afterwards, so it fires once.
\<close>

theorem auto_reset_after_4000_ms:
  assumes "reset_wait s = Some 4000" and "reset_wait r = Some 4000"
  shows "(n < 4000 \<longrightarrow>
            status (k_run (replicate n KMs) s) = status s \<and>
            crossed (k_run (replicate n KMs) s) = crossed s \<and>
            position_z (k_run (replicate n KMs) s) = position_z s \<and>
            status (r_run (replicate n RMs) r) = status r \<and>
            crossed (r_run (replicate n RMs) r) = crossed r) \<and>
         status (k_run (replicate 4000 KMs) s) = Playing \<and>
         crossed (k_run (replicate 4000 KMs) s) = False \<and>
         position_x (k_run (replicate 4000 KMs) s) = 0 \<and>
         position_y (k_run (replicate 4000 KMs) s) = 0.3 \<and>
         position_z (k_run (replicate 4000 KMs) s) = 18 \<and>
         rotation_y (k_run (replicate 4000 KMs) s) = 0 \<and>
         reset_wait (k_run (replicate 4001 KMs) s) = None \<and>
         status (r_run (replicate 4000 RMs) r) = Playing \<and>
         crossed (r_run (replicate 4000 RMs) r) = False \<and>
         translation (car_body (r_run (replicate 4000 RMs) r))
           = \<lparr> vec_x = 0, vec_y = 0.4, vec_z = 18 \<rparr> \<and>
         linvel (car_body (r_run (replicate 4000 RMs) r)) = zero_vec \<and>
         angvel (car_body (r_run (replicate 4000 RMs) r)) = zero_vec"
proof -
  have a: "n < 4000 \<longrightarrow>
            status (k_run (replicate n KMs) s) = status s \<and>
            crossed (k_run (replicate n KMs) s) = crossed s \<and>
            position_z (k_run (replicate n KMs) s) = position_z s \<and>
            status (r_run (replicate n RMs) r) = status r \<and>
            crossed (r_run (replicate n RMs) r) = crossed r"
    using k_auto_reset_pending [OF assms(1), of n] r_ms_pending [OF assms(2), of n]
    by (simp only: r_run_ms) blast
  have f: "(ms_tick k_reset ^^ 4000) s
             = k_reset (((quiet_ms ^^ 4000) s)\<lparr> reset_wait := None \<rparr>)"
    using ms_ticks_fire [OF assms(1), of k_reset] by simp
  have "(ms_tick k_reset ^^ 4001) s = ms_tick k_reset ((ms_tick k_reset ^^ 4000) s)"
    by (simp add: eval_nat_numeral)
  then have b: "reset_wait (k_run (replicate 4001 KMs) s) = None"
    unfolding k_run_ms f by (simp add: ms_tick_quiet reset_tick_def)
  have p: "reset_wait ((r_step RMs ^^ 3999) r) = Some 1"
    using r_ms_pending [OF assms(2), of 3999] by simp
  have "(r_step RMs ^^ 4000) r = (r_step RMs ^^ Suc 3999) r"
    by simp
  then have "(r_step RMs ^^ 4000) r = r_step RMs ((r_step RMs ^^ 3999) r)"
    by (simp only: funpow.simps o_apply)
  then have c: "status (r_run (replicate 4000 RMs) r) = Playing \<and>
         crossed (r_run (replicate 4000 RMs) r) = False \<and>
         translation (car_body (r_run (replicate 4000 RMs) r))
           = \<lparr> vec_x = 0, vec_y = 0.4, vec_z = 18 \<rparr> \<and>
         linvel (car_body (r_run (replicate 4000 RMs) r)) = zero_vec \<and>
         angvel (car_body (r_run (replicate 4000 RMs) r)) = zero_vec"
    using r_ms_fire_step [OF p] by (simp only: r_run_ms)
  show ?thesis
    using a b c k_auto_reset_fires [OF assms(1)] by simp
qed


lemma crossing_body_frame:
  "status (r_frame crossing_body) = Passed \<and> reset_wait (r_frame crossing_body) = Some 4000"
  by (simp add: r_frame_def Let_def crossing_body_def r_mount_def onCrossStopLine_def
      setStatus_def)

text \<open>The theorem at the two scenario cars right after their crossing on green.\<close>

theorem auto_reset_after_4000_ms_witness:
  "reset_wait (k_frame (1 / 20) crossing_car) = Some 4000 \<and>
   reset_wait (r_frame crossing_body) = Some 4000 \<and>
   status (k_run (replicate 3999 KMs) (k_frame (1 / 20) crossing_car)) = Passed \<and>
   status (k_run (replicate 4000 KMs) (k_frame (1 / 20) crossing_car)) = Playing \<and>
   position_z (k_run (replicate 4000 KMs) (k_frame (1 / 20) crossing_car)) = 18 \<and>
   status (r_run (replicate 3999 RMs) (r_frame crossing_body)) = Passed \<and>
   status (r_run (replicate 4000 RMs) (r_frame crossing_body)) = Playing"
proof -
  have k: "reset_wait (k_frame (1 / 20) crossing_car) = Some 4000"
    and ks: "status (k_frame (1 / 20) crossing_car) = Passed"
    using crossing_car_frame by simp_all
  have r: "reset_wait (r_frame crossing_body) = Some 4000"
    and rs: "status (r_frame crossing_body) = Passed"
    using crossing_body_frame by simp_all
  have "(3999::nat) < 4000" by simp
  with auto_reset_after_4000_ms [OF k r, of 3999]
  have a: "status (k_run (replicate 3999 KMs) (k_frame (1 / 20) crossing_car))
             = status (k_frame (1 / 20) crossing_car) \<and>
           status (r_run (replicate 3999 RMs) (r_frame crossing_body))
             = status (r_frame crossing_body) \<and>
           status (k_run (replicate 4000 KMs) (k_frame (1 / 20) crossing_car)) = Playing \<and>
           position_z (k_run (replicate 4000 KMs) (k_frame (1 / 20) crossing_car)) = 18 \<and>
           status (r_run (replicate 4000 RMs) (r_frame crossing_body)) = Playing"
    by blast
  show ?thesis
    using a k r ks rs by simp
qed

lemma ms_tick_score:
  "(\<And>x. traffic_score (reset x) = traffic_score x) \<Longrightarrow>
   traffic_score (ms_tick reset s) = traffic_score s"
  by (simp add: ms_tick_quiet reset_tick_def split: option.splits)

lemma k_frame_score:
  "traffic_score (k_frame delta s) = traffic_score s \<or>
   traffic_score (k_frame delta s) = traffic_score s + 1"
proof (cases "paused s")
  case True
  then show ?thesis by (simp add: k_frame_paused)
next
  case np: False
  show ?thesis
  proof (cases "\<bar>position_x s + fst (capped_velocity delta s) * capped_delta delta\<bar> > 4.5")
    case True
    with np show ?thesis by (simp add: k_frame_barrier)
  next
    case False
    with np show ?thesis by (simp add: k_frame_move Let_def)
  qed
qed

text \<open>
  The driving score never decreases: every event of either game leaves it as it is or adds
  exactly 1.
\<close>

theorem traffic_score_never_decreases:
  "traffic_score s \<le> traffic_score (k_step kv s) \<and>
   traffic_score (k_step kv s) \<le> traffic_score s + 1 \<and>
   traffic_score r \<le> traffic_score (r_step rv r) \<and>
   traffic_score (r_step rv r) \<le> traffic_score r + 1"
proof -
  have k: "traffic_score s \<le> traffic_score (k_step kv s) \<and>
           traffic_score (k_step kv s) \<le> traffic_score s + 1"
  proof (cases kv)
    case (KFrame delta)
    then show ?thesis using k_frame_score [of delta s] by auto
  qed (simp_all add: ms_tick_score)
  have r: "traffic_score r \<le> traffic_score (r_step rv r) \<and>
           traffic_score (r_step rv r) \<le> traffic_score r + 1"
  proof (cases rv)
    case RFrame
    then show ?thesis by (simp add: r_frame_round)
  qed (simp_all add: ms_tick_score r_keydown_def pause_effect_def keydown_def
        r_onBarrierHit_def Let_def position_effect_def split: option.splits)
  show ?thesis using k r by blast
qed

subsection \<open>The stop line, round by round\<close>





















end
